theory Spec2Isabelle
  imports
    Main
    "HOL-Library.Char_ord"
    "HOL-Library.List_Lexorder"
    "HOL-Library.Multiset"
    "HOL-Library.AList"
begin

section \<open>Request signing of botocore (auth.py)\<close>

text \<open>
  The module \<^verbatim>\<open>botocore/auth.py\<close> holds the signers \<^verbatim>\<open>SigV2Auth\<close>, \<^verbatim>\<open>SigV3Auth\<close>,
  \<^verbatim>\<open>SigV4Auth\<close>, \<^verbatim>\<open>S3SigV4Auth\<close> and \<^verbatim>\<open>HmacV1Auth\<close>. Each method is a function here, under
  the name it has in the source. A Python byte string is a \<^typ>\<open>string\<close>, one \<^typ>\<open>char\<close>
  per byte, so that \<^verbatim>\<open>encode('utf-8')\<close> and \<^verbatim>\<open>decode('utf-8')\<close> are the identity; strings
  are compared as Python compares byte strings, lexicographically by byte value.
\<close>

subsection \<open>Strings of the Python standard library\<close>

text \<open>\<^verbatim>\<open>sep.join(xs)\<close>\<close>

fun join :: "string \<Rightarrow> string list \<Rightarrow> string" where
  "join sep [] = []"
| "join sep [x] = x"
| "join sep (x # y # ys) = x @ sep @ join sep (y # ys)"

text \<open>\<^verbatim>\<open>s.split(c)\<close> for a separator of one character: never the empty list.\<close>

fun split :: "char \<Rightarrow> string \<Rightarrow> string list" where
  "split c [] = [[]]"
| "split c (x # xs) =
     (if x = c then [] # split c xs
      else (case split c xs of [] \<Rightarrow> [[x]] | w # ws \<Rightarrow> (x # w) # ws))"

text \<open>\<^verbatim>\<open>s.split(c, 1)\<close>: one or two pieces.\<close>

definition split1 :: "char \<Rightarrow> string \<Rightarrow> string list" where
  "split1 c s =
     (if c \<in> set s
      then [takeWhile (\<lambda>x. x \<noteq> c) s, tl (dropWhile (\<lambda>x. x \<noteq> c) s)]
      else [s])"

text \<open>\<^verbatim>\<open>s.lower()\<close>, on the ASCII letters.\<close>

definition lower_chr :: "char \<Rightarrow> char" where
  "lower_chr c =
     (case map_of (zip ''ABCDEFGHIJKLMNOPQRSTUVWXYZ'' ''abcdefghijklmnopqrstuvwxyz'') c of
        None \<Rightarrow> c
      | Some l \<Rightarrow> l)"

definition lower :: "string \<Rightarrow> string" where
  "lower s = map lower_chr s"

text \<open>\<^verbatim>\<open>s.upper()\<close>, on the ASCII letters.\<close>

definition upper_chr :: "char \<Rightarrow> char" where
  "upper_chr c =
     (case map_of (zip ''abcdefghijklmnopqrstuvwxyz'' ''ABCDEFGHIJKLMNOPQRSTUVWXYZ'') c of
        None \<Rightarrow> c
      | Some u \<Rightarrow> u)"

definition upper :: "string \<Rightarrow> string" where
  "upper s = map upper_chr s"

text \<open>\<^verbatim>\<open>s.strip()\<close>: the whitespace of a byte string is space, tab, LF, VT, FF and CR.\<close>

definition is_space :: "char \<Rightarrow> bool" where
  "is_space c = (c \<in> set [CHR '' '', CHR 0x09, CHR 0x0A, CHR 0x0B, CHR 0x0C, CHR 0x0D])"

definition strip :: "string \<Rightarrow> string" where
  "strip s = rev (dropWhile is_space (rev (dropWhile is_space s)))"

text \<open>\<^verbatim>\<open>s.startswith(p)\<close>\<close>

definition startswith :: "string \<Rightarrow> string \<Rightarrow> bool" where
  "startswith s p = (take (length p) s = p)"

text \<open>
  \<^verbatim>\<open>urllib.quote(s, safe)\<close> of Python 2.7: a byte stays when it is a letter, a digit,
  one of \<^verbatim>\<open>_.-\<close> or in \<^verbatim>\<open>safe\<close>, and becomes \<^verbatim>\<open>%XX\<close> in upper-case hexadecimal otherwise.
\<close>

definition always_safe :: string where
  "always_safe = ''ABCDEFGHIJKLMNOPQRSTUVWXYZabcdefghijklmnopqrstuvwxyz0123456789_.-''"

definition percent_hex :: "char \<Rightarrow> string" where
  "percent_hex c =
     [CHR ''%'', ''0123456789ABCDEF'' ! (of_char c div 16), ''0123456789ABCDEF'' ! (of_char c mod 16)]"

definition quote :: "string \<Rightarrow> string \<Rightarrow> string" where
  "quote s safe =
     concat (map (\<lambda>c. if c \<in> set (always_safe @ safe) then [c] else percent_hex c) s)"

text \<open>
  \<^verbatim>\<open>urllib.unquote(s)\<close> of Python 2.7: the string is cut at every \<^verbatim>\<open>%\<close>; a piece that
  starts with two hexadecimal digits has them replaced by the byte they name, and any
  other piece gets its \<^verbatim>\<open>%\<close> back.
\<close>

definition hexval :: "char \<Rightarrow> nat option" where
  "hexval c =
     map_of (zip ''0123456789ABCDEFabcdef''
       [0, 1, 2, 3, 4, 5, 6, 7, 8, 9, 10, 11, 12, 13, 14, 15, 10, 11, 12, 13, 14, 15]) c"

fun unquote_item :: "string \<Rightarrow> string" where
  "unquote_item (a # b # rest) =
     (case (hexval a, hexval b) of
        (Some h, Some l) \<Rightarrow> char_of (16 * h + l) # rest
      | _ \<Rightarrow> CHR ''%'' # a # b # rest)"
| "unquote_item item = CHR ''%'' # item"

definition unquote :: "string \<Rightarrow> string" where
  "unquote s =
     (case split (CHR ''%'') s of
        [] \<Rightarrow> s
      | b # bits \<Rightarrow> b @ concat (map unquote_item bits))"

text \<open>\<^verbatim>\<open>binascii.hexlify\<close>, which \<^verbatim>\<open>hexdigest()\<close> applies to a digest.\<close>

definition hexlify :: "string \<Rightarrow> string" where
  "hexlify s =
     concat (map (\<lambda>c. [''0123456789abcdef'' ! (of_char c div 16),
                         ''0123456789abcdef'' ! (of_char c mod 16)]) s)"

text \<open>\<^verbatim>\<open>base64.b64encode\<close>: three bytes give four characters, the rest is padded.\<close>

definition b64_chr :: "nat \<Rightarrow> char" where
  "b64_chr n =
     ''ABCDEFGHIJKLMNOPQRSTUVWXYZabcdefghijklmnopqrstuvwxyz0123456789+/'' ! (n mod 64)"

fun b64encode :: "string \<Rightarrow> string" where
  "b64encode [] = []"
| "b64encode [a] =
     (let n = of_char a
      in [b64_chr (n div 4), b64_chr (n mod 4 * 16), CHR ''='', CHR ''=''])"
| "b64encode [a, b] =
     (let n = of_char a * 256 + of_char b
      in [b64_chr (n div 1024), b64_chr (n div 16), b64_chr (n mod 16 * 4), CHR ''=''])"
| "b64encode (a # b # c # rest) =
     (let n = (of_char a * 256 + of_char b) * 256 + of_char c
      in [b64_chr (n div 262144), b64_chr (n div 4096), b64_chr (n div 64), b64_chr n]
         @ b64encode rest)"

text \<open>
  \<^verbatim>\<open>base64.encodestring\<close>: the input is encoded 57 bytes at a time, every piece followed
  by a newline.
\<close>

function encodestring :: "string \<Rightarrow> string" where
  "encodestring s =
     (if s = [] then []
      else b64encode (take 57 s) @ [CHR 0x0A] @ encodestring (drop 57 s))"
  by pat_completeness auto
termination
  by (relation "measure length") auto

declare encodestring.simps [simp del]

subsection \<open>The header container\<close>

text \<open>
  \<^verbatim>\<open>HTTPHeaders\<close> (compat.py) is \<^verbatim>\<open>email.message.Message\<close>: a list of (name, value)
  pairs in insertion order. Assigning to a name appends a pair and keeps the pairs the
  name already has; lookup, membership and deletion compare names without case.
\<close>

type_synonym HTTPHeaders = "(string \<times> string) list"

definition headers_setitem :: "HTTPHeaders \<Rightarrow> string \<Rightarrow> string \<Rightarrow> HTTPHeaders" where
  "headers_setitem h name val = h @ [(name, val)]"

definition headers_delitem :: "HTTPHeaders \<Rightarrow> string \<Rightarrow> HTTPHeaders" where
  "headers_delitem h name = filter (\<lambda>(k, v). lower k \<noteq> lower name) h"

definition headers_contains :: "HTTPHeaders \<Rightarrow> string \<Rightarrow> bool" where
  "headers_contains h name = (lower name \<in> set (map (\<lambda>(k, v). lower k) h))"

definition headers_get_all :: "HTTPHeaders \<Rightarrow> string \<Rightarrow> string list" where
  "headers_get_all h name = map snd (filter (\<lambda>(k, v). lower k = lower name) h)"

text \<open>\<^verbatim>\<open>h[name]\<close> is the first value of the name, \<^verbatim>\<open>None\<close> when there is none.\<close>

definition headers_getitem :: "HTTPHeaders \<Rightarrow> string \<Rightarrow> string option" where
  "headers_getitem h name =
     (case headers_get_all h name of [] \<Rightarrow> None | v # _ \<Rightarrow> Some v)"

text \<open>Iteration yields the name of every pair, repeated names included.\<close>

definition headers_iter :: "HTTPHeaders \<Rightarrow> string list" where
  "headers_iter h = map fst h"

subsection \<open>Dictionaries\<close>

text \<open>
  A \<^verbatim>\<open>dict\<close> from strings to strings is an association list read by its first match.
  \<^verbatim>\<open>sorted(d)\<close> is the sorted list of its keys.
\<close>

type_synonym dict = "(string \<times> string) list"

definition dict_keys :: "dict \<Rightarrow> string list" where
  "dict_keys d = remdups (map fst d)"

definition dict_setitem :: "dict \<Rightarrow> string \<Rightarrow> string \<Rightarrow> dict" where
  "dict_setitem d k v = AList.update k v d"

definition dict_getitem :: "dict \<Rightarrow> string \<Rightarrow> string" where
  "dict_getitem d k = the (map_of d k)"

subsection \<open>Credentials, requests and what the signers take from outside\<close>

record Credentials =
  access_key :: string
  secret_key :: string
  token :: "string option"

text \<open>\<^verbatim>\<open>if self.credentials.token\<close>: \<^verbatim>\<open>None\<close> and the empty string are false.\<close>

definition token_truthy :: "Credentials \<Rightarrow> bool" where
  "token_truthy c = (case token c of None \<Rightarrow> False | Some t \<Rightarrow> t \<noteq> [])"

record SplitResult =
  scheme :: string
  netloc :: string
  path :: string
  query :: string
  fragment :: string

text \<open>
  A body is absent, a string, or a stream object. A stream has its bytes and a read
  position; \<open>has_seek\<close> is \<^verbatim>\<open>hasattr(body, 'seek')\<close>, and a stream that has \<^verbatim>\<open>seek\<close>
  is taken to support \<^verbatim>\<open>tell\<close>, \<^verbatim>\<open>read\<close> and \<^verbatim>\<open>seek\<close>.
\<close>

record stream =
  content :: string
  position :: nat
  has_seek :: bool

datatype body = NoBody | Text string | Stream stream

text \<open>\<^verbatim>\<open>if request.body\<close>: \<^verbatim>\<open>None\<close> and the empty string are false, an object is true.\<close>

fun body_truthy :: "body \<Rightarrow> bool" where
  "body_truthy NoBody = False"
| "body_truthy (Text s) = (s \<noteq> [])"
| "body_truthy (Stream f) = True"

text \<open>
  The request has the attributes the signers read: \<^verbatim>\<open>method\<close>, \<^verbatim>\<open>url\<close>, \<^verbatim>\<open>headers\<close>,
  \<^verbatim>\<open>data\<close> and \<^verbatim>\<open>param\<close> (both read by \<^verbatim>\<open>SigV2Auth.add_auth\<close>), \<^verbatim>\<open>params\<close> (read by
  \<^verbatim>\<open>SigV4Auth.canonical_query_string\<close>) and \<^verbatim>\<open>body\<close>.
\<close>

record Request =
  "method" :: string
  url :: string
  headers :: HTTPHeaders
  data :: dict
  param :: dict
  params :: dict
  body :: body

text \<open>
  What the module takes from outside is a parameter of every function that uses it: the
  clock (\<^verbatim>\<open>datetime.utcnow()\<close> in its two formats, \<^verbatim>\<open>formatdate(usegmt=True)\<close>),
  \<^verbatim>\<open>urlsplit\<close>, \<^verbatim>\<open>botocore.utils.normalize_url_path\<close>, and the digests \<^verbatim>\<open>sha256\<close>,
  \<^verbatim>\<open>hmac\<close> with \<^verbatim>\<open>sha256\<close> and \<^verbatim>\<open>hmac\<close> with \<^verbatim>\<open>sha1\<close> (key first, then message; the
  result is the raw digest).
\<close>

record env =
  utcnow_isoformat :: string
  utcnow_strftime :: string
  formatdate :: string
  urlsplit :: "string \<Rightarrow> SplitResult"
  normalize_url_path :: "string \<Rightarrow> string"
  sha256 :: "string \<Rightarrow> string"
  hmac_sha256 :: "string \<Rightarrow> string \<Rightarrow> string"
  hmac_sha1 :: "string \<Rightarrow> string \<Rightarrow> string"

text \<open>
  The errors: \<^verbatim>\<open>NoCredentialsError\<close> and \<^verbatim>\<open>UnseekableStreamError\<close> are classes of
  exceptions.py, \<^verbatim>\<open>AttributeError\<close> is what Python raises for an attribute an object
  does not have.
\<close>

datatype error = NoCredentialsError | UnseekableStreamError | AttributeError

definition EMPTY_SHA256_HASH :: string where
  "EMPTY_SHA256_HASH = ''e3b0c44298fc1c149afbf4c8996fb92427ae41e4649b934ca495991b7852b855''"

definition PAYLOAD_BUFFER :: nat where
  "PAYLOAD_BUFFER = 1024 * 1024"

subsection \<open>SigV2Auth\<close>

text \<open>The loop of \<^verbatim>\<open>calc_signature\<close> over the sorted keys, appending to \<^verbatim>\<open>pairs\<close>.\<close>

fun calc_signature_pairs :: "dict \<Rightarrow> string list \<Rightarrow> string list \<Rightarrow> string list" where
  "calc_signature_pairs ps [] pairs = pairs"
| "calc_signature_pairs ps (key # keys) pairs =
     (let value = dict_getitem ps key
      in calc_signature_pairs ps keys
           (pairs @ [quote key [] @ ''='' @ quote value ''-_~'']))"

definition SigV2Auth_calc_signature ::
    "env \<Rightarrow> Credentials \<Rightarrow> Request \<Rightarrow> dict \<Rightarrow> string \<times> string" where
  "SigV2Auth_calc_signature e c request ps =
     (let sp = urlsplit e (url request);
          p = path sp;
          p = (if length p = 0 then ''/'' else p);
          string_to_sign = method request @ [CHR 0x0A] @ netloc sp @ [CHR 0x0A] @ p @ [CHR 0x0A];
          pairs = calc_signature_pairs ps (sort (dict_keys ps)) [];
          qs = join ''&'' pairs;
          string_to_sign = string_to_sign @ qs;
          b64 = strip (b64encode (hmac_sha256 e (secret_key c) string_to_sign))
      in (qs, b64))"

text \<open>
  \<^verbatim>\<open>add_auth\<close> returns the outcome together with the request as the call leaves it.
  \<^verbatim>\<open>params\<close> is the dictionary \<^verbatim>\<open>request.data\<close> or \<^verbatim>\<open>request.param\<close> itself, so every
  assignment to it is an assignment to that attribute.
\<close>

definition SigV2Auth_add_auth ::
    "env \<Rightarrow> Credentials option \<Rightarrow> Request \<Rightarrow> (error + unit) \<times> Request" where
  "SigV2Auth_add_auth e creds request =
     (case creds of
        None \<Rightarrow> (Inl NoCredentialsError, request)
      | Some c \<Rightarrow>
          let post = (data request \<noteq> []);
              store = (\<lambda>d. if post then request\<lparr>data := d\<rparr> else request\<lparr>param := d\<rparr>);
              ps = (if post then data request else param request);
              ps = dict_setitem ps ''AWSAccessKeyId'' (access_key c);
              ps = dict_setitem ps ''SignatureVersion'' ''2'';
              ps = dict_setitem ps ''SignatureMethod'' ''HmacSHA256'';
              ps = dict_setitem ps ''Timestamp'' (utcnow_isoformat e);
              ps = (case token c of
                          None \<Rightarrow> ps
                        | Some t \<Rightarrow>
                            if t \<noteq> [] then dict_setitem ps ''SecurityToken'' t else ps);
              (qs, signature) = SigV2Auth_calc_signature e c (store ps) ps;
              ps = dict_setitem ps ''Signature'' signature
          in (Inr (), store ps))"

subsection \<open>SigV3Auth\<close>

definition SigV3Auth_add_auth ::
    "env \<Rightarrow> Credentials option \<Rightarrow> Request \<Rightarrow> (error + unit) \<times> Request" where
  "SigV3Auth_add_auth e creds request =
     (case creds of
        None \<Rightarrow> (Inl NoCredentialsError, request)
      | Some c \<Rightarrow>
          let h = headers request;
              h = (if \<not> headers_contains h ''Date''
                   then headers_setitem h ''Date'' (formatdate e) else h);
              h = (case token c of
                     None \<Rightarrow> h
                   | Some t \<Rightarrow>
                       if t \<noteq> [] then headers_setitem h ''X-Amz-Security-Token'' t else h)
          in (case headers_getitem h ''Date'' of
                None \<Rightarrow> (Inl AttributeError, request\<lparr>headers := h\<rparr>)
              | Some date \<Rightarrow>
                  let new_hmac = hmac_sha256 e (secret_key c) date;
                      encoded_signature = strip (encodestring new_hmac);
                      signature = ''AWS3-HTTPS AWSAccessKeyId='' @ access_key c
                        @ '',Algorithm='' @ ''HmacSHA256''
                        @ '',Signature='' @ encoded_signature
                  in (Inr (),
                      request\<lparr>headers := headers_setitem h ''X-Amzn-Authorization'' signature\<rparr>)))"

subsection \<open>SigV4Auth and S3SigV4Auth\<close>

text \<open>
  \<^verbatim>\<open>S3SigV4Auth\<close> is the subclass that overrides \<^verbatim>\<open>_add_headers_before_signing\<close> and
  \<^verbatim>\<open>_normalize_url_path\<close>; \<open>is_s3\<close> says which of the two classes the signer is.
  The methods that read \<^verbatim>\<open>self.credentials\<close> are only called by \<^verbatim>\<open>add_auth\<close> after it
  has found the credentials present, and take them as an argument.
\<close>

record SigV4Auth =
  credentials :: "Credentials option"
  timestamp :: string
  region_name :: string
  service_name :: string
  is_s3 :: bool

definition SigV4Auth_sign :: "env \<Rightarrow> string \<Rightarrow> string \<Rightarrow> bool \<Rightarrow> string" where
  "SigV4Auth_sign e key msg hex =
     (if hex then hexlify (hmac_sha256 e key msg) else hmac_sha256 e key msg)"

fun headers_to_sign_loop :: "(string \<times> string) list \<Rightarrow> HTTPHeaders \<Rightarrow> HTTPHeaders" where
  "headers_to_sign_loop [] header_map = header_map"
| "headers_to_sign_loop ((name, value) # items) header_map =
     (let lname = lower name
      in headers_to_sign_loop items (headers_setitem header_map lname value))"

definition SigV4Auth_headers_to_sign :: "env \<Rightarrow> Request \<Rightarrow> HTTPHeaders" where
  "SigV4Auth_headers_to_sign e request =
     (let header_map = [];
          sp = urlsplit e (url request);
          header_map = headers_to_sign_loop (headers request) header_map
      in if \<not> headers_contains header_map ''host''
         then headers_setitem header_map ''host'' (netloc sp)
         else header_map)"

fun canonical_query_string_params_loop :: "dict \<Rightarrow> string list \<Rightarrow> string list \<Rightarrow> string list" where
  "canonical_query_string_params_loop ps [] l = l"
| "canonical_query_string_params_loop ps (k # rest) l =
     (let value = dict_getitem ps k
      in canonical_query_string_params_loop ps rest
           (l @ [quote k ''-_.~'' @ ''='' @ quote value ''-_.~'']))"

definition SigV4Auth_canonical_query_string_params :: "dict \<Rightarrow> string" where
  "SigV4Auth_canonical_query_string_params ps =
     (let l = canonical_query_string_params_loop ps (dict_keys ps) [];
          l = sort l;
          cqs = join ''&'' l
      in cqs)"

text \<open>
  In \<^verbatim>\<open>_canonical_query_string_url\<close> the elements of \<^verbatim>\<open>quoted_qsa\<close> are strings, so the
  sort key \<^verbatim>\<open>itemgetter(0)\<close> is the first character of each; every element holds an
  \<^verbatim>\<open>=\<close> and is not empty. Python's sort is stable, as \<^const>\<open>sort_key\<close> is.
\<close>

fun canonical_query_string_url_loop :: "string list list \<Rightarrow> string list \<Rightarrow> string list" where
  "canonical_query_string_url_loop [] quoted_qsa = quoted_qsa"
| "canonical_query_string_url_loop (q # qsa) quoted_qsa =
     canonical_query_string_url_loop qsa
       (case q of
          [k, v] \<Rightarrow> quoted_qsa @ [quote k ''-_.~'' @ ''='' @ quote (unquote v) ''-_.~'']
        | [k] \<Rightarrow> quoted_qsa @ [quote k ''-_.~'' @ ''='']
        | _ \<Rightarrow> quoted_qsa)"

definition SigV4Auth_canonical_query_string_url :: "SplitResult \<Rightarrow> string" where
  "SigV4Auth_canonical_query_string_url parts =
     (let buf = []
      in if query parts \<noteq> [] then
           let qsa = split (CHR ''&'') (query parts);
               qsa = map (split1 (CHR ''='')) qsa;
               quoted_qsa = canonical_query_string_url_loop qsa []
           in if length quoted_qsa > 0
              then buf @ join ''&'' (sort_key hd quoted_qsa)
              else buf
         else buf)"

definition SigV4Auth_canonical_query_string :: "env \<Rightarrow> Request \<Rightarrow> string" where
  "SigV4Auth_canonical_query_string e request =
     (if params request \<noteq> []
      then SigV4Auth_canonical_query_string_params (params request)
      else SigV4Auth_canonical_query_string_url (urlsplit e (url request)))"

fun canonical_headers_loop :: "HTTPHeaders \<Rightarrow> string list \<Rightarrow> string list \<Rightarrow> string list" where
  "canonical_headers_loop headers_to_sign [] hs = hs"
| "canonical_headers_loop headers_to_sign (key # keys) hs =
     (let value = join '','' (map strip (sort (headers_get_all headers_to_sign key)))
      in canonical_headers_loop headers_to_sign keys (hs @ [key @ '':'' @ value]))"

definition SigV4Auth_canonical_headers :: "HTTPHeaders \<Rightarrow> string" where
  "SigV4Auth_canonical_headers headers_to_sign =
     (let sorted_header_names = sort (remdups (headers_iter headers_to_sign))
      in join [CHR 0x0A] (canonical_headers_loop headers_to_sign sorted_header_names []))"

definition SigV4Auth_signed_headers :: "HTTPHeaders \<Rightarrow> string" where
  "SigV4Auth_signed_headers headers_to_sign =
     (let l = map (\<lambda>n. strip (lower n)) (remdups (headers_iter headers_to_sign));
          l = sort l
      in join '';'' l)"

text \<open>
  \<^verbatim>\<open>body.read(n)\<close> returns the next \<open>n\<close> bytes, fewer at the end, and moves the read
  position past them.
\<close>

definition stream_read :: "stream \<Rightarrow> nat \<Rightarrow> string \<times> stream" where
  "stream_read f n =
     (let chunk = take n (drop (position f) (content f))
      in (chunk, f\<lparr>position := position f + length chunk\<rparr>))"

text \<open>
  The loop \<^verbatim>\<open>for chunk in iter(read_chunksize, b'')\<close> of \<^verbatim>\<open>payload\<close>: it reads until a
  read returns nothing. \<open>checksum\<close> is what the hash object has been fed so far.
\<close>

function payload_loop :: "stream \<Rightarrow> nat \<Rightarrow> string \<Rightarrow> string \<times> stream" where
  "payload_loop f n checksum =
     (case stream_read f n of
        (chunk, f') \<Rightarrow>
          if chunk = [] then (checksum, f') else payload_loop f' n (checksum @ chunk))"
  by pat_completeness auto
termination
  by (relation "measure (\<lambda>(f, n, checksum). length (content f) - position f)")
     (auto simp: stream_read_def Let_def)

declare payload_loop.simps [simp del]

fun hasattr_seek :: "body \<Rightarrow> bool" where
  "hasattr_seek (Stream f) = has_seek f"
| "hasattr_seek b = False"

text \<open>
  \<^verbatim>\<open>payload\<close> returns the digest, or the error it raises, and the request as it leaves
  it. A string has no \<^verbatim>\<open>seek\<close>; a stream object has no \<^verbatim>\<open>encode\<close>, so the second branch
  raises \<^verbatim>\<open>AttributeError\<close> on a stream.
\<close>

definition SigV4Auth_payload :: "env \<Rightarrow> Request \<Rightarrow> (error + string) \<times> Request" where
  "SigV4Auth_payload e request =
     (if body_truthy (body request) \<and> hasattr_seek (body request) then
        (case body request of
           Stream f \<Rightarrow>
             let pos = position f;
                 (checksum, f') = payload_loop f PAYLOAD_BUFFER [];
                 hex_checksum = hexlify (sha256 e checksum);
                 f'' = f'\<lparr>position := pos\<rparr>
             in (Inr hex_checksum, request\<lparr>body := Stream f''\<rparr>)
         | _ \<Rightarrow> (Inl AttributeError, request))
      else if body_truthy (body request) then
        (case body request of
           Text s \<Rightarrow> (Inr (hexlify (sha256 e s)), request)
         | _ \<Rightarrow> (Inl AttributeError, request))
      else (Inr EMPTY_SHA256_HASH, request))"

text \<open>
  A method that \<^verbatim>\<open>S3SigV4Auth\<close> overrides is the method of the base class, the
  override, and the call \<^verbatim>\<open>self.m(...)\<close>, which takes the one or the other.
\<close>

definition SigV4Auth_normalize_url_path :: "env \<Rightarrow> string \<Rightarrow> string" where
  "SigV4Auth_normalize_url_path e p = normalize_url_path e p"

definition S3SigV4Auth_normalize_url_path :: "string \<Rightarrow> string" where
  "S3SigV4Auth_normalize_url_path p = p"

definition self_normalize_url_path :: "env \<Rightarrow> SigV4Auth \<Rightarrow> string \<Rightarrow> string" where
  "self_normalize_url_path e self p =
     (if is_s3 self then S3SigV4Auth_normalize_url_path p
      else SigV4Auth_normalize_url_path e p)"

text \<open>
  In \<^verbatim>\<open>canonical_request\<close> the test \<^verbatim>\<open>'X-Amz-Content-SHA256' in request.headers\<close> and the
  read \<^verbatim>\<open>request.headers['X-Amz-Content-SHA256']\<close> are one lookup: the name is in the
  headers exactly when the lookup finds a value.
\<close>

definition SigV4Auth_canonical_request ::
    "env \<Rightarrow> SigV4Auth \<Rightarrow> Request \<Rightarrow> (error + string) \<times> Request" where
  "SigV4Auth_canonical_request e self request =
     (let cr = [upper (method request)];
          p = self_normalize_url_path e self (path (urlsplit e (url request)));
          cr = cr @ [p];
          cr = cr @ [SigV4Auth_canonical_query_string e request];
          headers_to_sign = SigV4Auth_headers_to_sign e request;
          cr = cr @ [SigV4Auth_canonical_headers headers_to_sign @ [CHR 0x0A]];
          cr = cr @ [SigV4Auth_signed_headers headers_to_sign]
      in case headers_getitem (headers request) ''X-Amz-Content-SHA256'' of
           Some body_checksum \<Rightarrow> (Inr (join [CHR 0x0A] (cr @ [body_checksum])), request)
         | None \<Rightarrow>
             (case SigV4Auth_payload e request of
                (Inl err, request') \<Rightarrow> (Inl err, request')
              | (Inr body_checksum, request') \<Rightarrow>
                  (Inr (join [CHR 0x0A] (cr @ [body_checksum])), request')))"

definition SigV4Auth_scope :: "SigV4Auth \<Rightarrow> Credentials \<Rightarrow> string" where
  "SigV4Auth_scope self c =
     join ''/'' [access_key c, take 8 (timestamp self), region_name self, service_name self,
                 ''aws4_request'']"

definition SigV4Auth_credential_scope :: "SigV4Auth \<Rightarrow> string" where
  "SigV4Auth_credential_scope self =
     join ''/'' [take 8 (timestamp self), region_name self, service_name self, ''aws4_request'']"

definition SigV4Auth_string_to_sign :: "env \<Rightarrow> SigV4Auth \<Rightarrow> string \<Rightarrow> string" where
  "SigV4Auth_string_to_sign e self canonical_request =
     join [CHR 0x0A] [''AWS4-HMAC-SHA256'', timestamp self, SigV4Auth_credential_scope self,
                      hexlify (sha256 e canonical_request)]"

definition SigV4Auth_signature :: "env \<Rightarrow> SigV4Auth \<Rightarrow> Credentials \<Rightarrow> string \<Rightarrow> string" where
  "SigV4Auth_signature e self c string_to_sign =
     (let key = secret_key c;
          k_date = SigV4Auth_sign e (''AWS4'' @ key) (take 8 (timestamp self)) False;
          k_region = SigV4Auth_sign e k_date (region_name self) False;
          k_service = SigV4Auth_sign e k_region (service_name self) False;
          k_signing = SigV4Auth_sign e k_service ''aws4_request'' False
      in SigV4Auth_sign e k_signing string_to_sign True)"

definition SigV4Auth_add_headers_before_signing ::
    "SigV4Auth \<Rightarrow> Credentials \<Rightarrow> Request \<Rightarrow> Request" where
  "SigV4Auth_add_headers_before_signing self c request =
     (let h = headers request;
          h = (if headers_contains h ''Authorization''
               then headers_delitem h ''Authorization'' else h);
          h = (if \<not> headers_contains h ''Date''
               then headers_setitem h ''X-Amz-Date'' (timestamp self) else h);
          h = (case token c of
                 None \<Rightarrow> h
               | Some t \<Rightarrow>
                   if t \<noteq> [] then headers_setitem h ''X-Amz-Security-Token'' t else h)
      in request\<lparr>headers := h\<rparr>)"

definition S3SigV4Auth_add_headers_before_signing ::
    "env \<Rightarrow> SigV4Auth \<Rightarrow> Credentials \<Rightarrow> Request \<Rightarrow> (error + unit) \<times> Request" where
  "S3SigV4Auth_add_headers_before_signing e self c request =
     (let request = SigV4Auth_add_headers_before_signing self c request
      in case SigV4Auth_payload e request of
           (Inl err, request') \<Rightarrow> (Inl err, request')
         | (Inr hex_checksum, request') \<Rightarrow>
             (Inr (), request'\<lparr>headers :=
                headers_setitem (headers request') ''X-Amz-Content-SHA256'' hex_checksum\<rparr>))"

definition self_add_headers_before_signing ::
    "env \<Rightarrow> SigV4Auth \<Rightarrow> Credentials \<Rightarrow> Request \<Rightarrow> (error + unit) \<times> Request" where
  "self_add_headers_before_signing e self c request =
     (if is_s3 self then S3SigV4Auth_add_headers_before_signing e self c request
      else (Inr (), SigV4Auth_add_headers_before_signing self c request))"

text \<open>
  \<^verbatim>\<open>add_auth\<close> returns its outcome with the signer and the request as the call leaves
  them: the signer's \<^verbatim>\<open>timestamp\<close> is overwritten, the request's headers are changed.
\<close>

definition SigV4Auth_add_auth ::
    "env \<Rightarrow> SigV4Auth \<Rightarrow> Request \<Rightarrow> (error + unit) \<times> SigV4Auth \<times> Request" where
  "SigV4Auth_add_auth e self request =
     (case credentials self of
        None \<Rightarrow> (Inl NoCredentialsError, self, request)
      | Some c \<Rightarrow>
          let self = self\<lparr>timestamp := utcnow_strftime e\<rparr>
          in (case self_add_headers_before_signing e self c request of
                (Inl err, request) \<Rightarrow> (Inl err, self, request)
              | (Inr u, request) \<Rightarrow>
                  (case SigV4Auth_canonical_request e self request of
                     (Inl err, request) \<Rightarrow> (Inl err, self, request)
                   | (Inr canonical_request, request) \<Rightarrow>
                       (let string_to_sign = SigV4Auth_string_to_sign e self canonical_request;
                            signature = SigV4Auth_signature e self c string_to_sign;
                            l = [''AWS4-HMAC-SHA256 Credential='' @ SigV4Auth_scope self c];
                            headers_to_sign = SigV4Auth_headers_to_sign e request;
                            l = l @ [''SignedHeaders='' @ SigV4Auth_signed_headers headers_to_sign];
                            l = l @ [''Signature='' @ signature]
                        in (Inr (), self,
                            request\<lparr>headers :=
                              headers_setitem (headers request) ''Authorization''
                                (join '', '' l)\<rparr>)))))"

subsection \<open>HmacV1Auth\<close>

text \<open>
  The attribute \<^verbatim>\<open>credentials\<close> of \<^verbatim>\<open>HmacV1Auth\<close> is the field \<open>hmacv1_credentials\<close>,
  the name \<open>credentials\<close> being the field of \<^verbatim>\<open>SigV4Auth\<close>. As for \<^verbatim>\<open>SigV4Auth\<close>, the
  methods that read the credentials are called after \<^verbatim>\<open>add_auth\<close> has found them present
  and take them as an argument.
\<close>

record HmacV1Auth =
  hmacv1_credentials :: "Credentials option"
  auth_path :: "string option"

definition QSAOfInterest :: "string list" where
  "QSAOfInterest =
     [''acl'', ''cors'', ''defaultObjectAcl'', ''location'', ''logging'',
      ''partNumber'', ''policy'', ''requestPayment'', ''torrent'',
      ''versioning'', ''versionId'', ''versions'', ''website'',
      ''uploads'', ''uploadId'', ''response-content-type'',
      ''response-content-language'', ''response-expires'',
      ''response-cache-control'', ''response-content-disposition'',
      ''response-content-encoding'', ''delete'', ''lifecycle'',
      ''tagging'', ''restore'', ''storageClass'', ''notification'']"

definition HmacV1Auth_sign_string :: "env \<Rightarrow> Credentials \<Rightarrow> string \<Rightarrow> string" where
  "HmacV1Auth_sign_string e c string_to_sign =
     strip (encodestring (hmac_sha1 e (secret_key c) string_to_sign))"

text \<open>
  The inner loop of \<^verbatim>\<open>canonical_standard_headers\<close>: every key whose lower-case form is
  \<open>ih\<close> appends \<^verbatim>\<open>headers[key].strip()\<close>, the first value of that name.
\<close>

definition standard_header_values :: "HTTPHeaders \<Rightarrow> string \<Rightarrow> string list" where
  "standard_header_values h ih =
     concat (map (\<lambda>key. case headers_getitem h key of
                           None \<Rightarrow> []
                         | Some v \<Rightarrow> if lower key = ih then [strip v] else [])
                 (headers_iter h))"

fun canonical_standard_headers_loop :: "HTTPHeaders \<Rightarrow> string list \<Rightarrow> string list \<Rightarrow> string list" where
  "canonical_standard_headers_loop h [] hoi = hoi"
| "canonical_standard_headers_loop h (ih # rest) hoi =
     (let found = standard_header_values h ih
      in canonical_standard_headers_loop h rest
           (if found \<noteq> [] then hoi @ found else hoi @ [[]]))"

definition HmacV1Auth_canonical_standard_headers ::
    "env \<Rightarrow> HTTPHeaders \<Rightarrow> string \<times> HTTPHeaders" where
  "HmacV1Auth_canonical_standard_headers e h =
     (let interesting_headers = [''content-md5'', ''content-type'', ''date''];
          h = (if \<not> headers_contains h ''Date''
               then headers_setitem h ''Date'' (formatdate e) else h);
          hoi = canonical_standard_headers_loop h interesting_headers []
      in (join [CHR 0x0A] hoi, h))"

fun canonical_custom_headers_loop :: "HTTPHeaders \<Rightarrow> string list \<Rightarrow> dict \<Rightarrow> dict" where
  "canonical_custom_headers_loop h [] custom_headers = custom_headers"
| "canonical_custom_headers_loop h (key # keys) custom_headers =
     (let lk = lower key
      in canonical_custom_headers_loop h keys
           (if headers_getitem h key \<noteq> None \<and> startswith lk ''x-amz-''
            then dict_setitem custom_headers lk
                   (join '','' (map strip (headers_get_all h key)))
            else custom_headers))"

definition HmacV1Auth_canonical_custom_headers :: "HTTPHeaders \<Rightarrow> string" where
  "HmacV1Auth_canonical_custom_headers h =
     (let custom_headers = canonical_custom_headers_loop h (headers_iter h) [];
          sorted_header_keys = sort (dict_keys custom_headers);
          hoi = map (\<lambda>key. key @ '':'' @ dict_getitem custom_headers key) sorted_header_keys
      in join [CHR 0x0A] hoi)"

fun HmacV1Auth_unquote_v :: "string list \<Rightarrow> string list" where
  "HmacV1Auth_unquote_v [k] = [k]"
| "HmacV1Auth_unquote_v (k # v # rest) = [k, unquote v]"
| "HmacV1Auth_unquote_v [] = []"

text \<open>
  In \<^verbatim>\<open>canonical_resource\<close> every element of \<^verbatim>\<open>qsa\<close> is the result of \<^verbatim>\<open>split('=', 1)\<close>,
  a list of one or two strings, and \<^verbatim>\<open>itemgetter(0)\<close> is its first string.
\<close>

definition HmacV1Auth_canonical_resource :: "HmacV1Auth \<Rightarrow> SplitResult \<Rightarrow> string" where
  "HmacV1Auth_canonical_resource self sp =
     (let buf = (case auth_path self of
                   None \<Rightarrow> path sp
                 | Some ap \<Rightarrow> if ap \<noteq> [] then ap else path sp)
      in if query sp \<noteq> [] then
           let qsa = split (CHR ''&'') (query sp);
               qsa = map (split1 (CHR ''='')) qsa;
               qsa = map HmacV1Auth_unquote_v (filter (\<lambda>a. hd a \<in> set QSAOfInterest) qsa)
           in if length qsa > 0 then
                let qsa = sort_key hd qsa;
                    qsa = map (join ''='') qsa
                in buf @ ''?'' @ join ''&'' qsa
              else buf
         else buf)"

definition HmacV1Auth_canonical_string ::
    "env \<Rightarrow> HmacV1Auth \<Rightarrow> string \<Rightarrow> SplitResult \<Rightarrow> HTTPHeaders \<Rightarrow> string \<times> HTTPHeaders" where
  "HmacV1Auth_canonical_string e self m sp h =
     (let cs = upper m @ [CHR 0x0A];
          (standard, h) = HmacV1Auth_canonical_standard_headers e h;
          cs = cs @ standard @ [CHR 0x0A];
          custom_headers = HmacV1Auth_canonical_custom_headers h;
          cs = (if custom_headers \<noteq> [] then cs @ custom_headers @ [CHR 0x0A] else cs);
          cs = cs @ HmacV1Auth_canonical_resource self sp
      in (cs, h))"

definition HmacV1Auth_get_signature ::
    "env \<Rightarrow> HmacV1Auth \<Rightarrow> Credentials \<Rightarrow> string \<Rightarrow> SplitResult \<Rightarrow> HTTPHeaders
      \<Rightarrow> string \<times> HTTPHeaders" where
  "HmacV1Auth_get_signature e self c m sp h =
     (let h = (case token c of
                 None \<Rightarrow> h
               | Some t \<Rightarrow>
                   if t \<noteq> [] then headers_setitem h ''x-amz-security-token'' t else h);
          (string_to_sign, h) = HmacV1Auth_canonical_string e self m sp h
      in (HmacV1Auth_sign_string e c string_to_sign, h))"

definition HmacV1Auth_add_auth ::
    "env \<Rightarrow> HmacV1Auth \<Rightarrow> Request \<Rightarrow> (error + unit) \<times> Request" where
  "HmacV1Auth_add_auth e self request =
     (case hmacv1_credentials self of
        None \<Rightarrow> (Inl NoCredentialsError, request)
      | Some c \<Rightarrow>
          let sp = urlsplit e (url request);
              (signature, h) = HmacV1Auth_get_signature e self c (method request) sp
                                 (headers request)
          in (Inr (),
              request\<lparr>headers :=
                headers_setitem h ''Authorization''
                  (''AWS '' @ access_key c @ '':'' @ signature)\<rparr>))"

subsection \<open>Example inputs\<close>

text \<open>
  An environment to run the signers in: a fixed clock, the splitting of an absolute URL
  \<^verbatim>\<open>scheme://netloc/path?query#fragment\<close>, no path normalisation, and fixed strings in
  place of the digests. No property below depends on what a digest is.
\<close>

definition example_urlsplit :: "string \<Rightarrow> SplitResult" where
  "example_urlsplit u =
     (let sch = takeWhile (\<lambda>c. c \<noteq> CHR '':'') u;
          rest = drop (length sch + 3) u;
          nl = takeWhile (\<lambda>c. c \<notin> set ''/?#'') rest;
          rest = drop (length nl) rest;
          frag = (if CHR ''#'' \<in> set rest
                  then tl (dropWhile (\<lambda>c. c \<noteq> CHR ''#'') rest) else []);
          rest = takeWhile (\<lambda>c. c \<noteq> CHR ''#'') rest;
          q = (if CHR ''?'' \<in> set rest
               then tl (dropWhile (\<lambda>c. c \<noteq> CHR ''?'') rest) else []);
          p = takeWhile (\<lambda>c. c \<noteq> CHR ''?'') rest
      in \<lparr>scheme = lower sch, netloc = nl, path = p, query = q, fragment = frag\<rparr>)"

definition example_env :: env where
  "example_env =
     \<lparr>utcnow_isoformat = ''2013-12-01T10:20:30.000000'',
      utcnow_strftime = ''20131201T102030Z'',
      formatdate = ''Sun, 01 Dec 2013 10:20:30 GMT'',
      urlsplit = example_urlsplit,
      normalize_url_path = (\<lambda>p. p),
      sha256 = (\<lambda>m. ''0123456789abcdef0123456789abcdef''),
      hmac_sha256 = (\<lambda>k m. ''0123456789abcdef0123456789abcdef''),
      hmac_sha1 = (\<lambda>k m. ''0123456789abcdef0123'')\<rparr>"

definition example_credentials :: Credentials where
  "example_credentials = \<lparr>access_key = ''AKID'', secret_key = ''secret'', token = None\<rparr>"

definition example_request :: Request where
  "example_request =
     \<lparr>method = ''GET'',
      url = ''https://host.example.com/b/k?partNumber=1&foo=bar'',
      headers = [(''Authorization'', ''AWS old:sig'')],
      data = [(''Action'', ''DescribeInstances'')], param = [], params = [],
      body = NoBody\<rparr>"

definition example_v4 :: "bool \<Rightarrow> Credentials option \<Rightarrow> SigV4Auth" where
  "example_v4 s3 c =
     \<lparr>credentials = c, timestamp = ''20130101T000000Z'', region_name = ''us-east-1'',
      service_name = ''ec2'', is_s3 = s3\<rparr>"

definition example_hmacv1 :: "Credentials option \<Rightarrow> HmacV1Auth" where
  "example_hmacv1 c = \<lparr>hmacv1_credentials = c, auth_path = None\<rparr>"

definition example_unseekable :: Request where
  "example_unseekable =
     example_request\<lparr>body := Stream \<lparr>content = ''hello'', position = 0, has_seek = False\<rparr>\<rparr>"

definition example_seekable :: Request where
  "example_seekable =
     example_request\<lparr>body := Stream \<lparr>content = ''hello'', position = 2, has_seek = True\<rparr>\<rparr>"

text \<open>
  The query string as the specification words it, to compare \<^verbatim>\<open>canonical_query_string\<close>
  with: the pairs percent-encoded, sorted by encoded key, written \<^verbatim>\<open>key=value\<close> and
  joined by \<^verbatim>\<open>&\<close>.
\<close>

definition query_string_sorted_by_key :: "(string \<times> string) list \<Rightarrow> string" where
  "query_string_sorted_by_key pairs =
     join ''&''
       (map (\<lambda>(k, v). k @ ''='' @ v)
          (sort_key fst (map (\<lambda>(k, v). (quote k ''-_.~'', quote v ''-_.~'')) pairs)))"

section \<open>Properties\<close>

subsection \<open>The header container and the payload\<close>

lemma lower_Authorization: "lower ''Authorization'' = ''authorization''"
  by (simp add: lower_def lower_chr_def)

lemma headers_contains_setitem:
  "headers_contains (headers_setitem h n v) m \<longleftrightarrow> headers_contains h m \<or> lower n = lower m"
  by (auto simp add: headers_contains_def headers_setitem_def)

lemma headers_contains_delitem:
  "\<not> headers_contains (headers_delitem h n) n"
  by (auto simp add: headers_contains_def headers_delitem_def)

lemma headers_get_all_setitem:
  "headers_get_all (headers_setitem h n v) m =
     headers_get_all h m @ (if lower n = lower m then [v] else [])"
  by (simp add: headers_get_all_def headers_setitem_def)

lemma headers_get_all_empty_iff:
  "headers_get_all h m = [] \<longleftrightarrow> \<not> headers_contains h m"
  by (force simp add: headers_contains_def headers_get_all_def filter_empty_conv)

lemma headers_get_all_absent:
  "\<not> headers_contains h m \<Longrightarrow> headers_get_all h m = []"
  by (simp add: headers_get_all_empty_iff)

lemma headers_getitem_contains:
  "headers_getitem h n \<noteq> None \<longleftrightarrow> headers_contains h n"
  using headers_get_all_empty_iff [of h n]
  by (cases "headers_get_all h n") (simp_all add: headers_getitem_def)

lemma take_drop_length: "take n xs @ drop (length (take n xs)) xs = xs"
  by (cases "n \<le> length xs") (simp_all add: min_def)

lemma payload_loop_result:
  "0 < n \<Longrightarrow>
   payload_loop f n acc =
     (acc @ drop (position f) (content f),
      f\<lparr>position := max (position f) (length (content f))\<rparr>)"
proof (induction f n acc rule: payload_loop.induct)
  case (1 f n checksum)
  let ?chunk = "take n (drop (position f) (content f))"
  let ?f' = "f\<lparr>position := position f + length ?chunk\<rparr>"
  have rd: "stream_read f n = (?chunk, ?f')"
    by (simp add: stream_read_def Let_def)
  show ?case
  proof (cases "?chunk = []")
    case True
    with \<open>0 < n\<close> have "drop (position f) (content f) = []"
      by (cases "drop (position f) (content f)") auto
    then have le: "length (content f) \<le> position f" by simp
    have "payload_loop f n checksum = (checksum, ?f')"
      using True rd by (subst payload_loop.simps) simp
    moreover have "?f' = f\<lparr>position := max (position f) (length (content f))\<rparr>"
      using True le by (simp add: max_def)
    moreover have "checksum @ drop (position f) (content f) = checksum"
      using le by simp
    ultimately show ?thesis by simp
  next
    case False
    then have lt: "position f < length (content f)" by auto
    have IH: "payload_loop ?f' n (checksum @ ?chunk) =
        ((checksum @ ?chunk) @ drop (position ?f') (content ?f'),
         ?f'\<lparr>position := max (position ?f') (length (content ?f'))\<rparr>)"
      using "1.IH" [OF rd [symmetric] False] "1.prems" by simp
    have a: "?chunk @ drop (position f + length ?chunk) (content f) = drop (position f) (content f)"
    proof -
      have "drop (position f + length ?chunk) (content f)
            = drop (length ?chunk) (drop (position f) (content f))"
        by (simp add: add.commute)
      then show ?thesis
        using take_drop_length [of n "drop (position f) (content f)"] by simp
    qed
    have b: "max (position f + length ?chunk) (length (content f)) = max (position f) (length (content f))"
      using lt by (auto simp add: max_def min_def)
    have "payload_loop f n checksum = payload_loop ?f' n (checksum @ ?chunk)"
      using False rd by (subst payload_loop.simps) simp
    then show ?thesis
      using IH a b by simp
  qed
qed

lemma payload_seekable:
  assumes "body request = Stream f" "has_seek f"
  shows "SigV4Auth_payload e request =
     (Inr (hexlify (sha256 e (drop (position f) (content f)))), request)"
proof -
  have "payload_loop f PAYLOAD_BUFFER [] =
      (drop (position f) (content f), f\<lparr>position := max (position f) (length (content f))\<rparr>)"
    using payload_loop_result [of PAYLOAD_BUFFER f "[]"] by (simp add: PAYLOAD_BUFFER_def)
  moreover have "request\<lparr>body := Stream f\<rparr> = request"
    using assms(1) by simp
  ultimately show ?thesis
    using assms by (simp add: SigV4Auth_payload_def)
qed

lemma payload_unseekable:
  assumes "body request = Stream f" "\<not> has_seek f"
  shows "SigV4Auth_payload e request = (Inl AttributeError, request)"
  using assms by (simp add: SigV4Auth_payload_def)

lemma payload_falsy:
  assumes "\<not> body_truthy (body request)"
  shows "SigV4Auth_payload e request = (Inr EMPTY_SHA256_HASH, request)"
  using assms by (simp add: SigV4Auth_payload_def)

lemma payload_text:
  assumes "body request = Text s" "s \<noteq> []"
  shows "SigV4Auth_payload e request = (Inr (hexlify (sha256 e s)), request)"
  using assms by (simp add: SigV4Auth_payload_def)

lemma payload_cases:
  "SigV4Auth_payload e request = (Inl AttributeError, request)
   \<or> (\<exists>h. SigV4Auth_payload e request = (Inr h, request))"
proof (cases "body request")
  case NoBody
  then show ?thesis using payload_falsy [of request e] by simp
next
  case (Text s)
  then show ?thesis
    using payload_falsy [of request e] payload_text [of request s e] by (cases "s = []") auto
next
  case (Stream f)
  then show ?thesis
    using payload_seekable [of request f e] payload_unseekable [of request f e]
    by (cases "has_seek f") auto
qed

lemma payload_ok:
  assumes "\<forall>f. body request = Stream f \<longrightarrow> has_seek f"
  shows "\<exists>h. SigV4Auth_payload e request = (Inr h, request)"
proof (cases "body request")
  case NoBody
  then show ?thesis using payload_falsy [of request e] by simp
next
  case (Text s)
  then show ?thesis
    using payload_falsy [of request e] payload_text [of request s e] by (cases "s = []") auto
next
  case (Stream f)
  then show ?thesis
    using payload_seekable [of request f e] assms by auto
qed

lemma canonical_request_ok:
  assumes "\<forall>f. body request = Stream f \<longrightarrow> has_seek f"
  shows "\<exists>cr. SigV4Auth_canonical_request e self request = (Inr cr, request)"
proof -
  obtain h where "SigV4Auth_payload e request = (Inr h, request)"
    using payload_ok [OF assms] by blast
  then show ?thesis
    by (simp add: SigV4Auth_canonical_request_def Let_def split: option.splits)
qed

lemma canonical_request_header:
  assumes "headers_getitem (headers request) ''X-Amz-Content-SHA256'' = Some v"
  shows "\<exists>cr. SigV4Auth_canonical_request e self request = (Inr cr, request)"
  using assms by (simp add: SigV4Auth_canonical_request_def Let_def)

lemma canonical_request_fails:
  assumes "headers_getitem (headers request) ''X-Amz-Content-SHA256'' = None"
    and "body request = Stream f" and "\<not> has_seek f"
  shows "SigV4Auth_canonical_request e self request = (Inl AttributeError, request)"
  using assms payload_unseekable [of request f e]
  by (simp add: SigV4Auth_canonical_request_def Let_def)

subsection \<open>The headers that SigV4Auth sets\<close>

lemma startswith_append: "startswith (p @ r) p"
  by (simp add: startswith_def)

lemma add_headers_before_signing_body:
  "body (SigV4Auth_add_headers_before_signing self c request) = body request"
  by (simp add: SigV4Auth_add_headers_before_signing_def Let_def)

lemma add_headers_before_signing_no_authorization:
  "\<not> headers_contains (headers (SigV4Auth_add_headers_before_signing self c request))
       ''Authorization''"
  by (auto simp add: SigV4Auth_add_headers_before_signing_def Let_def headers_contains_setitem
      headers_contains_delitem lower_def lower_chr_def split: option.splits)

lemma self_add_headers_before_signing_ok:
  assumes "\<forall>f. body request = Stream f \<longrightarrow> has_seek f"
  shows "\<exists>request1. self_add_headers_before_signing e self c request = (Inr (), request1)
           \<and> body request1 = body request
           \<and> \<not> headers_contains (headers request1) ''Authorization''"
proof (cases "is_s3 self")
  case False
  then show ?thesis
    by (simp add: self_add_headers_before_signing_def add_headers_before_signing_body
        add_headers_before_signing_no_authorization)
next
  case True
  let ?r = "SigV4Auth_add_headers_before_signing self c request"
  have "\<forall>f. body ?r = Stream f \<longrightarrow> has_seek f"
    using assms by (simp add: add_headers_before_signing_body)
  then obtain h where h: "SigV4Auth_payload e ?r = (Inr h, ?r)"
    using payload_ok [of ?r e] by blast
  have "\<not> headers_contains (headers_setitem (headers ?r) ''X-Amz-Content-SHA256'' h)
          ''Authorization''"
    using add_headers_before_signing_no_authorization [of self c request]
    by (simp add: headers_contains_setitem lower_def lower_chr_def)
  then show ?thesis
    using True h
    by (simp add: self_add_headers_before_signing_def S3SigV4Auth_add_headers_before_signing_def
        Let_def add_headers_before_signing_body)
qed

lemma authorization_value_prefix:
  assumes "timestamp self = ts"
  shows "startswith
     (join '', '' [''AWS4-HMAC-SHA256 Credential='' @ SigV4Auth_scope self c, x, y])
     (''AWS4-HMAC-SHA256 Credential='' @ access_key c @ ''/'' @ take 8 ts)"
proof -
  have "join '', '' [''AWS4-HMAC-SHA256 Credential='' @ SigV4Auth_scope self c, x, y] =
      (''AWS4-HMAC-SHA256 Credential='' @ access_key c @ ''/'' @ take 8 ts)
      @ (''/'' @ region_name self @ ''/'' @ service_name self @ ''/'' @ ''aws4_request''
         @ '', '' @ x @ '', '' @ y)"
    using assms by (simp add: SigV4Auth_scope_def)
  then show ?thesis
    using startswith_append by metis
qed

lemma add_auth_ok:
  assumes "credentials self = Some c"
    and "\<forall>f. body request = Stream f \<longrightarrow> has_seek f"
  shows "\<exists>request1 v.
           SigV4Auth_add_auth e self request =
             (Inr (), self\<lparr>timestamp := utcnow_strftime e\<rparr>,
              request1\<lparr>headers := headers_setitem (headers request1) ''Authorization'' v\<rparr>)
           \<and> body request1 = body request
           \<and> \<not> headers_contains (headers request1) ''Authorization''
           \<and> startswith v (''AWS4-HMAC-SHA256 Credential='' @ access_key c @ ''/''
                             @ take 8 (utcnow_strftime e))"
proof -
  let ?self = "self\<lparr>timestamp := utcnow_strftime e\<rparr>"
  obtain request1 where r1:
      "self_add_headers_before_signing e ?self c request = (Inr (), request1)"
      "body request1 = body request"
      "\<not> headers_contains (headers request1) ''Authorization''"
    using self_add_headers_before_signing_ok [OF assms(2), of e ?self c] by blast
  have "\<forall>f. body request1 = Stream f \<longrightarrow> has_seek f"
    using assms(2) r1(2) by simp
  then obtain cr where cr: "SigV4Auth_canonical_request e ?self request1 = (Inr cr, request1)"
    using canonical_request_ok [of request1 e ?self] by blast
  define v where "v = join '', ''
      [''AWS4-HMAC-SHA256 Credential='' @ SigV4Auth_scope ?self c,
       ''SignedHeaders='' @ SigV4Auth_signed_headers (SigV4Auth_headers_to_sign e request1),
       ''Signature='' @ SigV4Auth_signature e ?self c (SigV4Auth_string_to_sign e ?self cr)]"
  have "SigV4Auth_add_auth e self request =
      (Inr (), ?self, request1\<lparr>headers := headers_setitem (headers request1) ''Authorization'' v\<rparr>)"
    using assms(1) r1(1) cr by (simp add: SigV4Auth_add_auth_def Let_def v_def)
  moreover have "startswith v (''AWS4-HMAC-SHA256 Credential='' @ access_key c @ ''/''
                             @ take 8 (utcnow_strftime e))"
    unfolding v_def by (rule authorization_value_prefix) simp
  ultimately show ?thesis
    using r1(2,3) by blast
qed

lemma headers_contains_delitem_other:
  "headers_contains (headers_delitem h n) m \<longleftrightarrow> headers_contains h m \<and> lower m \<noteq> lower n"
  by (force simp add: headers_contains_def headers_delitem_def)

lemma add_headers_before_signing_content_sha256:
  "headers_contains (headers (SigV4Auth_add_headers_before_signing self c request))
       ''X-Amz-Content-SHA256''
   \<longleftrightarrow> headers_contains (headers request) ''X-Amz-Content-SHA256''"
  by (auto simp add: SigV4Auth_add_headers_before_signing_def Let_def headers_contains_setitem
      headers_contains_delitem_other lower_def lower_chr_def split: option.splits)

lemma self_add_headers_before_signing_fails:
  assumes "body request = Stream f" "\<not> has_seek f" "is_s3 self"
  shows "fst (self_add_headers_before_signing e self c request) = Inl AttributeError"
proof -
  let ?r = "SigV4Auth_add_headers_before_signing self c request"
  have "body ?r = Stream f" using assms(1) by (simp add: add_headers_before_signing_body)
  then have "SigV4Auth_payload e ?r = (Inl AttributeError, ?r)"
    using payload_unseekable assms(2) by blast
  then show ?thesis
    using assms(3)
    by (simp add: self_add_headers_before_signing_def S3SigV4Auth_add_headers_before_signing_def)
qed

lemma add_auth_unseekable:
  assumes "credentials self = Some c" "body request = Stream f" "\<not> has_seek f"
    and "is_s3 self \<or> \<not> headers_contains (headers request) ''X-Amz-Content-SHA256''"
  shows "fst (SigV4Auth_add_auth e self request) = Inl AttributeError"
proof (cases "is_s3 self")
  case True
  let ?self = "self\<lparr>timestamp := utcnow_strftime e\<rparr>"
  have "fst (self_add_headers_before_signing e ?self c request) = Inl AttributeError"
    using self_add_headers_before_signing_fails [of request f ?self e c] assms(2,3) True by simp
  then show ?thesis
    using assms(1)
    by (cases "self_add_headers_before_signing e ?self c request")
       (simp add: SigV4Auth_add_auth_def Let_def)
next
  case False
  let ?self = "self\<lparr>timestamp := utcnow_strftime e\<rparr>"
  let ?r = "SigV4Auth_add_headers_before_signing ?self c request"
  have a: "self_add_headers_before_signing e ?self c request = (Inr (), ?r)"
    using False by (simp add: self_add_headers_before_signing_def)
  have "\<not> headers_contains (headers ?r) ''X-Amz-Content-SHA256''"
    using assms(4) False by (simp add: add_headers_before_signing_content_sha256)
  then have "headers_getitem (headers ?r) ''X-Amz-Content-SHA256'' = None"
    using headers_getitem_contains by blast
  moreover have "body ?r = Stream f"
    using assms(2) by (simp add: add_headers_before_signing_body)
  ultimately have "SigV4Auth_canonical_request e ?self ?r = (Inl AttributeError, ?r)"
    using canonical_request_fails assms(3) by blast
  then show ?thesis
    using assms(1) a by (simp add: SigV4Auth_add_auth_def Let_def)
qed

lemma self_add_headers_before_signing_outcome:
  "fst (self_add_headers_before_signing e self c request) = Inl AttributeError
   \<or> fst (self_add_headers_before_signing e self c request) = Inr ()"
  using payload_cases [of e "SigV4Auth_add_headers_before_signing self c request"]
  by (auto simp add: self_add_headers_before_signing_def
      S3SigV4Auth_add_headers_before_signing_def)

lemma canonical_request_outcome:
  "fst (SigV4Auth_canonical_request e self request) \<noteq> Inl UnseekableStreamError"
  using payload_cases [of e request]
  by (auto simp add: SigV4Auth_canonical_request_def Let_def split: option.splits)

lemma add_auth_never_unseekable_error:
  "fst (SigV4Auth_add_auth e self request) \<noteq> Inl UnseekableStreamError"
proof (cases "credentials self")
  case None
  then show ?thesis by (simp add: SigV4Auth_add_auth_def)
next
  case (Some c)
  let ?self = "self\<lparr>timestamp := utcnow_strftime e\<rparr>"
  obtain r1 q1 where q: "self_add_headers_before_signing e ?self c request = (r1, q1)"
    by (cases "self_add_headers_before_signing e ?self c request")
  have r1: "r1 = Inl AttributeError \<or> r1 = Inr ()"
    using self_add_headers_before_signing_outcome [of e ?self c request] q by simp
  obtain r2 q2 where c2: "SigV4Auth_canonical_request e ?self q1 = (r2, q2)"
    by (cases "SigV4Auth_canonical_request e ?self q1")
  have r2: "r2 \<noteq> Inl UnseekableStreamError"
    using canonical_request_outcome [of e ?self q1] c2 by simp
  show ?thesis
    using Some q r1 c2 r2
    by (cases r2) (auto simp add: SigV4Auth_add_auth_def Let_def)
qed

text \<open>The equations that evaluate the model on a concrete input.\<close>

lemmas eval_defs =
  example_env_def example_urlsplit_def example_credentials_def example_request_def
  example_v4_def example_hmacv1_def example_unseekable_def example_seekable_def
  SigV2Auth_add_auth_def SigV2Auth_calc_signature_def SigV3Auth_add_auth_def
  SigV4Auth_add_auth_def self_add_headers_before_signing_def
  SigV4Auth_add_headers_before_signing_def S3SigV4Auth_add_headers_before_signing_def
  SigV4Auth_canonical_request_def SigV4Auth_payload_def SigV4Auth_headers_to_sign_def
  SigV4Auth_canonical_headers_def SigV4Auth_signed_headers_def
  SigV4Auth_canonical_query_string_def SigV4Auth_canonical_query_string_params_def
  SigV4Auth_canonical_query_string_url_def SigV4Auth_string_to_sign_def
  SigV4Auth_signature_def SigV4Auth_sign_def SigV4Auth_scope_def SigV4Auth_credential_scope_def
  self_normalize_url_path_def SigV4Auth_normalize_url_path_def S3SigV4Auth_normalize_url_path_def
  HmacV1Auth_add_auth_def HmacV1Auth_get_signature_def HmacV1Auth_canonical_string_def
  HmacV1Auth_canonical_standard_headers_def HmacV1Auth_canonical_custom_headers_def
  HmacV1Auth_canonical_resource_def HmacV1Auth_sign_string_def standard_header_values_def
  QSAOfInterest_def EMPTY_SHA256_HASH_def PAYLOAD_BUFFER_def
  headers_setitem_def headers_delitem_def headers_contains_def headers_get_all_def
  headers_getitem_def headers_iter_def dict_keys_def dict_setitem_def dict_getitem_def
  lower_def lower_chr_def upper_def upper_chr_def is_space_def strip_def startswith_def
  always_safe_def percent_hex_def quote_def hexval_def unquote_def hexlify_def b64_chr_def
  split1_def stream_read_def encodestring.simps payload_loop.simps Let_def
  char_of_def bit_Suc_0_iff

subsection \<open>The signers without credentials\<close>

text \<open>
  C9. Every signer (\<^verbatim>\<open>SigV2Auth\<close>, \<^verbatim>\<open>SigV3Auth\<close>, \<^verbatim>\<open>SigV4Auth\<close> and its subclass
  \<^verbatim>\<open>S3SigV4Auth\<close>, \<^verbatim>\<open>HmacV1Auth\<close>) raises \<^verbatim>\<open>NoCredentialsError\<close> when its credentials
  are \<^verbatim>\<open>None\<close>, and leaves the request (and the signer) exactly as they were.
\<close>

theorem add_auth_no_credentials:
  "SigV2Auth_add_auth e None request = (Inl NoCredentialsError, request)
   \<and> SigV3Auth_add_auth e None request = (Inl NoCredentialsError, request)
   \<and> (credentials v4 = None \<longrightarrow>
        SigV4Auth_add_auth e v4 request = (Inl NoCredentialsError, v4, request))
   \<and> (hmacv1_credentials v1 = None \<longrightarrow>
        HmacV1Auth_add_auth e v1 request = (Inl NoCredentialsError, request))"
  by (simp add: SigV2Auth_add_auth_def SigV3Auth_add_auth_def SigV4Auth_add_auth_def
      HmacV1Auth_add_auth_def)

theorem add_auth_no_credentials_witness:
  "credentials (example_v4 False None) = None
   \<and> credentials (example_v4 True None) = None
   \<and> hmacv1_credentials (example_hmacv1 None) = None
   \<and> SigV2Auth_add_auth example_env None example_request
       = (Inl NoCredentialsError, example_request)
   \<and> SigV3Auth_add_auth example_env None example_request
       = (Inl NoCredentialsError, example_request)
   \<and> SigV4Auth_add_auth example_env (example_v4 False None) example_request
       = (Inl NoCredentialsError, example_v4 False None, example_request)
   \<and> SigV4Auth_add_auth example_env (example_v4 True None) example_request
       = (Inl NoCredentialsError, example_v4 True None, example_request)
   \<and> HmacV1Auth_add_auth example_env (example_hmacv1 None) example_request
       = (Inl NoCredentialsError, example_request)"
  using add_auth_no_credentials [of example_env example_request "example_v4 False None"
      "example_hmacv1 None"]
    add_auth_no_credentials [of example_env example_request "example_v4 True None"
      "example_hmacv1 None"]
  by (simp add: example_v4_def example_hmacv1_def)

subsection \<open>SigV4Auth: the Authorization header and the payload\<close>

text \<open>
  What \<^verbatim>\<open>SigV4Auth.add_auth\<close> does on a request that is signed again. With credentials
  present and a body that can be hashed, \<^verbatim>\<open>SigV4Auth.add_auth\<close> (and the subclass
  \<^verbatim>\<open>S3SigV4Auth\<close>) returns with exactly one \<^verbatim>\<open>Authorization\<close> header, whatever the case
  of its name in the request before: every earlier one is removed, the new one is the last
  header, and its value is computed for the current time stamp.
\<close>

theorem SigV4Auth_add_auth_replaces_authorization:
  assumes "credentials self = Some c"
    and "\<forall>f. body request = Stream f \<longrightarrow> has_seek f"
  shows "\<exists>self' request' v.
           SigV4Auth_add_auth e self request = (Inr (), self', request')
           \<and> headers_get_all (headers request') ''Authorization'' = [v]
           \<and> last (headers request') = (''Authorization'', v)
           \<and> startswith v (''AWS4-HMAC-SHA256 Credential='' @ access_key c @ ''/''
                             @ take 8 (utcnow_strftime e))"
proof -
  obtain request1 v where r:
      "SigV4Auth_add_auth e self request =
         (Inr (), self\<lparr>timestamp := utcnow_strftime e\<rparr>,
          request1\<lparr>headers := headers_setitem (headers request1) ''Authorization'' v\<rparr>)"
      "\<not> headers_contains (headers request1) ''Authorization''"
      "startswith v (''AWS4-HMAC-SHA256 Credential='' @ access_key c @ ''/''
                       @ take 8 (utcnow_strftime e))"
    using add_auth_ok [OF assms, of e] by blast
  let ?h = "headers_setitem (headers request1) ''Authorization'' v"
  have "headers_get_all ?h ''Authorization'' = [v]"
    using r(2) by (simp add: headers_get_all_setitem headers_get_all_absent)
  moreover have "last ?h = (''Authorization'', v)"
    by (simp add: headers_setitem_def)
  ultimately show ?thesis
    using r(1,3) by simp
qed

theorem SigV4Auth_add_auth_replaces_authorization_witness:
  "credentials (example_v4 False (Some example_credentials)) = Some example_credentials
   \<and> body example_request = NoBody
   \<and> headers_get_all (headers example_request) ''Authorization'' = [''AWS old:sig'']
   \<and> (\<exists>self' request' v.
         SigV4Auth_add_auth example_env (example_v4 False (Some example_credentials))
             example_request = (Inr (), self', request')
         \<and> headers_get_all (headers request') ''Authorization'' = [v]
         \<and> last (headers request') = (''Authorization'', v)
         \<and> startswith v ''AWS4-HMAC-SHA256 Credential=AKID/20131201'')"
proof -
  have c: "credentials (example_v4 False (Some example_credentials)) = Some example_credentials"
    by (simp add: example_v4_def)
  have b: "body example_request = NoBody"
    by (simp add: example_request_def)
  have b': "\<forall>f. body example_request = Stream f \<longrightarrow> has_seek f"
    using b by simp
  have h: "headers_get_all (headers example_request) ''Authorization'' = [''AWS old:sig'']"
    by (simp add: eval_defs)
  have p: "''AWS4-HMAC-SHA256 Credential='' @ access_key example_credentials @ ''/''
             @ take 8 (utcnow_strftime example_env) = ''AWS4-HMAC-SHA256 Credential=AKID/20131201''"
    by (simp add: example_credentials_def example_env_def)
  show ?thesis
    using SigV4Auth_add_auth_replaces_authorization [OF c b', of example_env] c b h
    unfolding p by blast
qed

text \<open>
  The other signers. \<^verbatim>\<open>SigV2Auth\<close> and \<^verbatim>\<open>SigV3Auth\<close> do not write an
  \<^verbatim>\<open>Authorization\<close> header; \<^verbatim>\<open>HmacV1Auth\<close> writes one.
\<close>

lemma canonical_standard_headers_authorization:
  "headers_get_all (snd (HmacV1Auth_canonical_standard_headers e h)) ''Authorization''
     = headers_get_all h ''Authorization''"
  by (simp add: HmacV1Auth_canonical_standard_headers_def Let_def headers_get_all_setitem
      lower_def lower_chr_def)

lemma canonical_string_authorization:
  "headers_get_all (snd (HmacV1Auth_canonical_string e self m sp h)) ''Authorization''
     = headers_get_all h ''Authorization''"
  using canonical_standard_headers_authorization [of e h]
  by (cases "HmacV1Auth_canonical_standard_headers e h")
     (simp add: HmacV1Auth_canonical_string_def Let_def)

lemma get_signature_authorization:
  "headers_get_all (snd (HmacV1Auth_get_signature e self c m sp h)) ''Authorization''
     = headers_get_all h ''Authorization''"
proof -
  let ?h = "case token c of
              None \<Rightarrow> h
            | Some t \<Rightarrow> if t \<noteq> [] then headers_setitem h ''x-amz-security-token'' t else h"
  have "headers_get_all ?h ''Authorization'' = headers_get_all h ''Authorization''"
    by (simp add: headers_get_all_setitem lower_def lower_chr_def split: option.splits)
  then show ?thesis
    using canonical_string_authorization [of e self m sp ?h]
    by (cases "HmacV1Auth_canonical_string e self m sp ?h")
       (simp add: HmacV1Auth_get_signature_def Let_def)
qed

lemma SigV2Auth_add_auth_headers:
  "headers (snd (SigV2Auth_add_auth e creds request)) = headers request"
  by (simp add: SigV2Auth_add_auth_def Let_def split: option.splits prod.splits)

lemma SigV3Auth_add_auth_authorization:
  "headers_get_all (headers (snd (SigV3Auth_add_auth e creds request))) ''Authorization''
     = headers_get_all (headers request) ''Authorization''"
  by (simp add: SigV3Auth_add_auth_def Let_def headers_get_all_setitem lower_def lower_chr_def
      split: option.splits)

text \<open>
  C1 (the code at fault). \<^verbatim>\<open>HmacV1Auth.add_auth\<close> never removes a header: with
  credentials present it returns with every \<^verbatim>\<open>Authorization\<close> header the request had,
  and the new one appended as the last header. A request that is signed again ends with
  two \<^verbatim>\<open>Authorization\<close> headers, where \<^verbatim>\<open>SigV4Auth.add_auth\<close> ends with one.
\<close>

theorem HmacV1Auth_add_auth_appends_authorization:
  assumes "hmacv1_credentials self = Some c"
  shows "\<exists>request' signature.
           HmacV1Auth_add_auth e self request = (Inr (), request')
           \<and> headers_get_all (headers request') ''Authorization'' =
               headers_get_all (headers request) ''Authorization''
               @ [''AWS '' @ access_key c @ '':'' @ signature]
           \<and> last (headers request') =
               (''Authorization'', ''AWS '' @ access_key c @ '':'' @ signature)"
proof -
  let ?sp = "urlsplit e (url request)"
  obtain signature h where g:
      "HmacV1Auth_get_signature e self c (method request) ?sp (headers request) = (signature, h)"
    by (cases "HmacV1Auth_get_signature e self c (method request) ?sp (headers request)")
  let ?v = "''AWS '' @ access_key c @ '':'' @ signature"
  let ?r = "request\<lparr>headers := headers_setitem h ''Authorization'' ?v\<rparr>"
  have a: "headers_get_all h ''Authorization'' = headers_get_all (headers request) ''Authorization''"
    using get_signature_authorization [of e self c "method request" ?sp "headers request"] g
    by simp
  have "HmacV1Auth_add_auth e self request = (Inr (), ?r)"
    using assms g by (simp add: HmacV1Auth_add_auth_def Let_def)
  moreover have "headers_get_all (headers ?r) ''Authorization'' =
      headers_get_all (headers request) ''Authorization'' @ [?v]"
    using a by (simp add: headers_get_all_setitem)
  moreover have "last (headers ?r) = (''Authorization'', ?v)"
    by (simp add: headers_setitem_def)
  ultimately show ?thesis by blast
qed

theorem HmacV1Auth_add_auth_appends_authorization_witness:
  "hmacv1_credentials (example_hmacv1 (Some example_credentials)) = Some example_credentials
   \<and> headers example_request = [(''Authorization'', ''AWS old:sig'')]
   \<and> HmacV1Auth_add_auth example_env (example_hmacv1 (Some example_credentials))
        example_request =
       (Inr (),
        example_request\<lparr>headers :=
          [(''Authorization'', ''AWS old:sig''),
           (''Date'', ''Sun, 01 Dec 2013 10:20:30 GMT''),
           (''Authorization'', ''AWS AKID:MDEyMzQ1Njc4OWFiY2RlZjAxMjM='')]\<rparr>)
   \<and> headers_get_all (headers (snd (HmacV1Auth_add_auth example_env
         (example_hmacv1 (Some example_credentials)) example_request))) ''Authorization''
       = [''AWS old:sig'', ''AWS AKID:MDEyMzQ1Njc4OWFiY2RlZjAxMjM='']"
proof -
  have c: "hmacv1_credentials (example_hmacv1 (Some example_credentials))
      = Some example_credentials"
    by (simp add: example_hmacv1_def)
  have h: "headers example_request = [(''Authorization'', ''AWS old:sig'')]"
    by (simp add: example_request_def)
  have ev: "HmacV1Auth_add_auth example_env (example_hmacv1 (Some example_credentials))
        example_request =
       (Inr (),
        example_request\<lparr>headers :=
          [(''Authorization'', ''AWS old:sig''),
           (''Date'', ''Sun, 01 Dec 2013 10:20:30 GMT''),
           (''Authorization'', ''AWS AKID:MDEyMzQ1Njc4OWFiY2RlZjAxMjM='')]\<rparr>)"
    by (simp add: eval_defs)
  have ga: "headers_get_all
      [(''Authorization'', ''AWS old:sig''),
       (''Date'', ''Sun, 01 Dec 2013 10:20:30 GMT''),
       (''Authorization'', ''AWS AKID:MDEyMzQ1Njc4OWFiY2RlZjAxMjM='')] ''Authorization''
      = [''AWS old:sig'', ''AWS AKID:MDEyMzQ1Njc4OWFiY2RlZjAxMjM='']"
    by (simp add: headers_get_all_def lower_def lower_chr_def)
  show ?thesis
    using HmacV1Auth_add_auth_appends_authorization [OF c, of example_env example_request]
      c h ev ga
    by simp
qed

text \<open>
  C3 (as amended). No path of \<^verbatim>\<open>SigV4Auth.add_auth\<close> raises \<^verbatim>\<open>UnseekableStreamError\<close>.
  When the body is a stream object without \<^verbatim>\<open>seek\<close> and has to be hashed (the signer
  is \<^verbatim>\<open>S3SigV4Auth\<close>, or the request has no \<^verbatim>\<open>X-Amz-Content-SHA256\<close> header),
  \<^verbatim>\<open>payload\<close> and \<^verbatim>\<open>add_auth\<close> fail with \<^verbatim>\<open>AttributeError\<close>.
\<close>

theorem SigV4Auth_unseekable_body:
  "fst (SigV4Auth_add_auth e self request) \<noteq> Inl UnseekableStreamError
   \<and> (credentials self = Some c \<and> body request = Stream f \<and> \<not> has_seek f
        \<and> (is_s3 self \<or> \<not> headers_contains (headers request) ''X-Amz-Content-SHA256'')
      \<longrightarrow> SigV4Auth_payload e request = (Inl AttributeError, request)
          \<and> fst (SigV4Auth_add_auth e self request) = Inl AttributeError)"
  using add_auth_never_unseekable_error [of e self request]
    add_auth_unseekable [of self c request f e] payload_unseekable [of request f e]
  by blast

theorem SigV4Auth_unseekable_body_witness:
  "credentials (example_v4 True (Some example_credentials)) = Some example_credentials
   \<and> body example_unseekable = Stream \<lparr>content = ''hello'', position = 0, has_seek = False\<rparr>
   \<and> is_s3 (example_v4 True (Some example_credentials))
   \<and> SigV4Auth_payload example_env example_unseekable = (Inl AttributeError, example_unseekable)
   \<and> fst (SigV4Auth_add_auth example_env (example_v4 True (Some example_credentials))
            example_unseekable) = Inl AttributeError"
  using SigV4Auth_unseekable_body [of example_env "example_v4 True (Some example_credentials)"
      example_unseekable example_credentials
      "\<lparr>content = ''hello'', position = 0, has_seek = False\<rparr>"]
  by (simp add: example_v4_def example_unseekable_def)

theorem SigV4Auth_unseekable_body_counterexample:
  "body example_unseekable = Stream \<lparr>content = ''hello'', position = 0, has_seek = False\<rparr>
   \<and> fst (SigV4Auth_add_auth example_env (example_v4 False (Some example_credentials))
            example_unseekable) = Inl AttributeError
   \<and> fst (SigV4Auth_add_auth example_env (example_v4 False (Some example_credentials))
            example_unseekable) \<noteq> Inl UnseekableStreamError"
  by (simp add: eval_defs)

text \<open>
  C4. When the body is a stream that has \<^verbatim>\<open>seek\<close>, \<^verbatim>\<open>payload\<close> returns: the reading
  loop ends for a body of any length, shorter or longer than \<^verbatim>\<open>PAYLOAD_BUFFER\<close>. It
  returns the digest of the bytes from the read position to the end, and the request
  with its stream, read position included, as before the call. So does \<^verbatim>\<open>add_auth\<close>.
\<close>

theorem SigV4Auth_payload_restores_position:
  assumes "body request = Stream f" and "has_seek f"
  shows "SigV4Auth_payload e request =
           (Inr (hexlify (sha256 e (drop (position f) (content f)))), request)
         \<and> (credentials self = Some c \<longrightarrow>
              (\<exists>self' request'. SigV4Auth_add_auth e self request = (Inr (), self', request')
                 \<and> body request' = Stream f))"
proof -
  have "\<forall>g. body request = Stream g \<longrightarrow> has_seek g"
    using assms by simp
  then show ?thesis
    using payload_seekable [OF assms, of e] add_auth_ok [of self c request e] assms(1)
    by fastforce
qed

theorem SigV4Auth_payload_restores_position_witness:
  "body example_seekable = Stream \<lparr>content = ''hello'', position = 2, has_seek = True\<rparr>
   \<and> has_seek \<lparr>content = ''hello'', position = 2, has_seek = True\<rparr>
   \<and> credentials (example_v4 True (Some example_credentials)) = Some example_credentials
   \<and> SigV4Auth_payload example_env example_seekable =
        (Inr (hexlify (sha256 example_env ''llo'')), example_seekable)
   \<and> (\<exists>self' request'.
         SigV4Auth_add_auth example_env (example_v4 True (Some example_credentials))
             example_seekable = (Inr (), self', request')
         \<and> body request' = Stream \<lparr>content = ''hello'', position = 2, has_seek = True\<rparr>)"
proof -
  have b: "body example_seekable = Stream \<lparr>content = ''hello'', position = 2, has_seek = True\<rparr>"
    by (simp add: example_seekable_def)
  have s: "has_seek \<lparr>content = ''hello'', position = 2, has_seek = True\<rparr>"
    by simp
  have c: "credentials (example_v4 True (Some example_credentials)) = Some example_credentials"
    by (simp add: example_v4_def)
  show ?thesis
    using SigV4Auth_payload_restores_position [OF b s, of example_env
        "example_v4 True (Some example_credentials)" example_credentials] b c
    by simp
qed

text \<open>
  C8. When the request has no body (\<^verbatim>\<open>None\<close> or the empty string) and no
  \<^verbatim>\<open>X-Amz-Content-SHA256\<close> header, \<^verbatim>\<open>payload\<close> returns the constant
  \<^verbatim>\<open>EMPTY_SHA256_HASH\<close>, and this constant is the last line of the canonical request that
  \<^verbatim>\<open>add_auth\<close> builds after \<^verbatim>\<open>_add_headers_before_signing\<close>, for both classes.
\<close>

theorem SigV4Auth_empty_body_payload_hash:
  assumes "body request = NoBody \<or> body request = Text []"
    and "\<not> headers_contains (headers request) ''X-Amz-Content-SHA256''"
  shows "SigV4Auth_payload e request =
           (Inr ''e3b0c44298fc1c149afbf4c8996fb92427ae41e4649b934ca495991b7852b855'', request)
         \<and> (\<exists>request1 pre.
               self_add_headers_before_signing e self c request = (Inr (), request1)
               \<and> SigV4Auth_canonical_request e self request1 =
                   (Inr (pre @ [CHR 0x0A]
                         @ ''e3b0c44298fc1c149afbf4c8996fb92427ae41e4649b934ca495991b7852b855''),
                    request1))"
proof -
  let ?E = "''e3b0c44298fc1c149afbf4c8996fb92427ae41e4649b934ca495991b7852b855''"
  have falsy: "\<not> body_truthy (body request)"
    using assms(1) by auto
  have p: "SigV4Auth_payload e request = (Inr ?E, request)"
    using payload_falsy [OF falsy, of e] by (simp add: EMPTY_SHA256_HASH_def)
  let ?r = "SigV4Auth_add_headers_before_signing self c request"
  have falsy': "\<not> body_truthy (body ?r)"
    using falsy by (simp add: add_headers_before_signing_body)
  have pr: "SigV4Auth_payload e ?r = (Inr ?E, ?r)"
    using payload_falsy [OF falsy', of e] by (simp add: EMPTY_SHA256_HASH_def)
  have nc: "\<not> headers_contains (headers ?r) ''X-Amz-Content-SHA256''"
    using assms(2) by (simp add: add_headers_before_signing_content_sha256)
  have "\<exists>request1 pre.
          self_add_headers_before_signing e self c request = (Inr (), request1)
          \<and> SigV4Auth_canonical_request e self request1 = (Inr (pre @ [CHR 0x0A] @ ?E), request1)"
  proof (cases "is_s3 self")
    case False
    have "headers_getitem (headers ?r) ''X-Amz-Content-SHA256'' = None"
      using nc headers_getitem_contains by blast
    then have "\<exists>pre. SigV4Auth_canonical_request e self ?r = (Inr (pre @ [CHR 0x0A] @ ?E), ?r)"
      using pr by (simp add: SigV4Auth_canonical_request_def Let_def)
    then show ?thesis
      using False by (simp add: self_add_headers_before_signing_def)
  next
    case True
    let ?r1 = "?r\<lparr>headers := headers_setitem (headers ?r) ''X-Amz-Content-SHA256'' ?E\<rparr>"
    have a: "self_add_headers_before_signing e self c request = (Inr (), ?r1)"
      using True pr
      by (simp add: self_add_headers_before_signing_def
          S3SigV4Auth_add_headers_before_signing_def)
    have "headers_get_all (headers ?r1) ''X-Amz-Content-SHA256'' = [?E]"
      using nc by (simp add: headers_get_all_setitem headers_get_all_absent)
    then have "headers_getitem (headers ?r1) ''X-Amz-Content-SHA256'' = Some ?E"
      by (simp add: headers_getitem_def)
    then have "\<exists>pre. SigV4Auth_canonical_request e self ?r1 = (Inr (pre @ [CHR 0x0A] @ ?E), ?r1)"
      by (simp add: SigV4Auth_canonical_request_def Let_def)
    then show ?thesis
      using a by blast
  qed
  then show ?thesis
    using p by blast
qed

theorem SigV4Auth_empty_body_payload_hash_witness:
  "body example_request = NoBody
   \<and> \<not> headers_contains (headers example_request) ''X-Amz-Content-SHA256''
   \<and> SigV4Auth_payload example_env example_request =
        (Inr ''e3b0c44298fc1c149afbf4c8996fb92427ae41e4649b934ca495991b7852b855'',
         example_request)
   \<and> (\<exists>request1 pre.
         self_add_headers_before_signing example_env
             (example_v4 True (Some example_credentials)) example_credentials example_request
           = (Inr (), request1)
         \<and> SigV4Auth_canonical_request example_env
             (example_v4 True (Some example_credentials)) request1 =
             (Inr (pre @ [CHR 0x0A]
                   @ ''e3b0c44298fc1c149afbf4c8996fb92427ae41e4649b934ca495991b7852b855''),
              request1))"
proof -
  have b: "body example_request = NoBody"
    by (simp add: example_request_def)
  have b': "body example_request = NoBody \<or> body example_request = Text []"
    using b by simp
  have h: "\<not> headers_contains (headers example_request) ''X-Amz-Content-SHA256''"
    by (simp add: eval_defs)
  show ?thesis
    using SigV4Auth_empty_body_payload_hash [OF b' h, of example_env
        "example_v4 True (Some example_credentials)" example_credentials] b h
    by blast
qed

subsection \<open>SigV2Auth: the string to sign\<close>

lemma strip_no_space:
  assumes "\<forall>c\<in>set s. \<not> is_space c"
  shows "strip s = s"
proof -
  have "dropWhile is_space s = s"
    using assms by (cases s) auto
  moreover have "dropWhile is_space (rev s) = rev s"
    using assms by (cases "rev s") (auto dest: arg_cong [where f = set])
  ultimately show ?thesis
    by (simp add: strip_def)
qed

lemma b64_chr_not_space: "\<not> is_space (b64_chr n)"
proof -
  let ?a = "''ABCDEFGHIJKLMNOPQRSTUVWXYZabcdefghijklmnopqrstuvwxyz0123456789+/''"
  have "n mod 64 < length ?a" by simp
  then have "?a ! (n mod 64) \<in> set ?a" by (rule nth_mem)
  moreover have "\<forall>c\<in>set ?a. \<not> is_space c" by (simp add: is_space_def)
  ultimately show ?thesis by (simp only: b64_chr_def) blast
qed

lemma b64encode_no_space: "\<forall>c\<in>set (b64encode s). \<not> is_space c"
proof (induction s rule: b64encode.induct)
  case 1
  then show ?case by simp
next
  case (2 a)
  then show ?case by (simp add: Let_def b64_chr_not_space) (simp add: is_space_def)
next
  case (3 a b)
  then show ?case by (simp add: Let_def b64_chr_not_space) (simp add: is_space_def)
next
  case (4 a b c rest)
  then show ?case by (simp add: Let_def b64_chr_not_space)
qed

lemma strip_b64encode: "strip (b64encode s) = b64encode s"
  by (rule strip_no_space) (rule b64encode_no_space)

lemma calc_signature_pairs_map:
  "calc_signature_pairs ps keys pairs =
     pairs @ map (\<lambda>key. quote key [] @ ''='' @ quote (dict_getitem ps key) ''-_~'') keys"
  by (induction keys arbitrary: pairs) (simp_all add: Let_def)

text \<open>
  C5. \<^verbatim>\<open>SigV2Auth.calc_signature\<close> returns the query string and the signature. The
  query string is the \<^verbatim>\<open>&\<close>-joined list, over the sorted keys of the parameters, of the
  key quoted with no safe character, \<^verbatim>\<open>=\<close>, and the value quoted with the safe
  characters \<^verbatim>\<open>-_~\<close>. The string that is signed is the method, the host and the path,
  each followed by a newline, and then the query string, the empty path replaced by
  \<^verbatim>\<open>/\<close>. The signature is the base64 encoding of the HMAC-SHA256 of that string under
  the secret key.
\<close>

theorem SigV2Auth_calc_signature_string_to_sign:
  "SigV2Auth_calc_signature e c request ps =
     (let sp = urlsplit e (url request);
          qs = join ''&''
                 (map (\<lambda>key. quote key [] @ ''='' @ quote (dict_getitem ps key) ''-_~'')
                      (sort (dict_keys ps)));
          string_to_sign =
            method request @ [CHR 0x0A] @ netloc sp @ [CHR 0x0A]
            @ (if path sp = [] then ''/'' else path sp) @ [CHR 0x0A] @ qs
      in (qs, b64encode (hmac_sha256 e (secret_key c) string_to_sign)))"
  by (simp add: SigV2Auth_calc_signature_def Let_def calc_signature_pairs_map strip_b64encode)

theorem SigV2Auth_calc_signature_string_to_sign_witness:
  "SigV2Auth_calc_signature example_env example_credentials
       (example_request\<lparr>url := ''https://host.example.com''\<rparr>)
       [(''Version'', ''2013-10-15''), (''Action'', ''Describe Instances''), (''a b'', ''x~y/z'')]
     = (''Action=Describe%20Instances&Version=2013-10-15&a%20b=x~y%2Fz'',
        b64encode (hmac_sha256 example_env ''secret''
          (''GET'' @ [CHR 0x0A] @ ''host.example.com'' @ [CHR 0x0A] @ ''/'' @ [CHR 0x0A]
           @ ''Action=Describe%20Instances&Version=2013-10-15&a%20b=x~y%2Fz'')))"
  using SigV2Auth_calc_signature_string_to_sign [of example_env example_credentials
      "example_request\<lparr>url := ''https://host.example.com''\<rparr>"
      "[(''Version'', ''2013-10-15''), (''Action'', ''Describe Instances''), (''a b'', ''x~y/z'')]"]
  by (simp add: eval_defs)

subsection \<open>SigV4Auth: the canonical headers\<close>

lemma lower_chr_idem: "lower_chr (lower_chr c) = lower_chr c"
  by (auto simp: lower_chr_def split: option.splits if_splits)

lemma lower_idem: "lower (lower s) = lower s"
  by (simp add: lower_def lower_chr_idem)

lemma lower_host: "lower ''host'' = ''host''"
  by (simp add: lower_def lower_chr_def)

lemma headers_to_sign_loop_map:
  "headers_to_sign_loop items header_map =
     header_map @ map (\<lambda>(name, value). (lower name, value)) items"
  by (induction items arbitrary: header_map)
     (auto simp add: Let_def headers_setitem_def)

lemma headers_contains_lowered:
  "headers_contains (map (\<lambda>(name, value). (lower name, value)) h) m \<longleftrightarrow> headers_contains h m"
  by (force simp add: headers_contains_def lower_idem image_iff)

lemma headers_get_all_lowered:
  "headers_get_all (map (\<lambda>(name, value). (lower name, value)) h) m = headers_get_all h m"
  by (induction h) (auto simp add: headers_get_all_def lower_idem)

lemma headers_get_all_append:
  "headers_get_all (h @ h') m = headers_get_all h m @ headers_get_all h' m"
  by (simp add: headers_get_all_def)

lemma canonical_headers_loop_map:
  "canonical_headers_loop h keys hs =
     hs @ map (\<lambda>key. key @ '':'' @ join '','' (map strip (sort (headers_get_all h key)))) keys"
  by (induction keys arbitrary: hs) (simp_all add: Let_def)

lemma headers_to_sign_eq:
  "SigV4Auth_headers_to_sign e request =
     map (\<lambda>(name, value). (lower name, value)) (headers request)
     @ (if headers_contains (headers request) ''host'' then []
        else [(''host'', netloc (urlsplit e (url request)))])"
  by (simp add: SigV4Auth_headers_to_sign_def Let_def headers_to_sign_loop_map
      headers_contains_lowered headers_setitem_def)

text \<open>
  C6 (as amended). The canonical headers of a request are one line per name, the names
  being the lower-case forms of the request's header names, each once, in sorted order,
  together with \<^verbatim>\<open>host\<close> when the request has no host header. The line of a name is the
  name, a colon, and the values of all headers of that name, whatever their case, sorted
  as they stand, with the whitespace around them, then each stripped, and joined by
  commas: the values on the line need not be in sorted order. The value of the added
  \<^verbatim>\<open>host\<close> is the URL's authority.
\<close>

theorem SigV4Auth_canonical_headers_lines:
  "\<exists>names.
     SigV4Auth_canonical_headers (SigV4Auth_headers_to_sign e request) =
       join [CHR 0x0A]
         (map (\<lambda>name. name @ '':'' @
                 join '',''
                   (map strip
                      (sort (headers_get_all (headers request) name
                             @ (if name = ''host'' \<and> \<not> headers_contains (headers request) ''host''
                                then [netloc (urlsplit e (url request))] else [])))))
              names)
     \<and> sorted names \<and> distinct names
     \<and> set names =
         (\<lambda>(name, value). lower name) ` set (headers request)
         \<union> (if headers_contains (headers request) ''host'' then {} else {''host''})"
proof -
  let ?hs = "headers request"
  let ?extra = "if headers_contains ?hs ''host'' then []
                else [(''host'', netloc (urlsplit e (url request)))]"
  let ?H = "map (\<lambda>(name, value). (lower name, value)) ?hs @ ?extra"
  let ?names = "sort (remdups (headers_iter ?H))"
  let ?line = "\<lambda>name. name @ '':'' @
                 join '',''
                   (map strip
                      (sort (headers_get_all ?hs name
                             @ (if name = ''host'' \<and> \<not> headers_contains ?hs ''host''
                                then [netloc (urlsplit e (url request))] else []))))"
  have H: "SigV4Auth_headers_to_sign e request = ?H"
    by (rule headers_to_sign_eq)
  have names: "set ?names =
      (\<lambda>(name, value). lower name) ` set ?hs
      \<union> (if headers_contains ?hs ''host'' then {} else {''host''})"
    by (auto simp add: headers_iter_def image_iff split: if_splits) force+
  have lowered: "lower name = name" if "name \<in> set ?names" for name
    using that names by (auto simp add: lower_idem lower_host split: if_splits)
  have vals: "headers_get_all ?H name =
      headers_get_all ?hs name
      @ (if name = ''host'' \<and> \<not> headers_contains ?hs ''host''
         then [netloc (urlsplit e (url request))] else [])"
    if "name \<in> set ?names" for name
    using lowered [OF that]
    by (auto simp add: headers_get_all_append headers_get_all_lowered)
       (auto simp add: headers_get_all_def lower_host)
  have "SigV4Auth_canonical_headers ?H =
      join [CHR 0x0A]
        (map (\<lambda>key. key @ '':'' @ join '','' (map strip (sort (headers_get_all ?H key))))
             ?names)"
    by (simp add: SigV4Auth_canonical_headers_def Let_def canonical_headers_loop_map)
  also have "map (\<lambda>key. key @ '':'' @ join '','' (map strip (sort (headers_get_all ?H key))))
                 ?names = map ?line ?names"
    by (rule map_cong [OF refl]) (simp only: vals)
  finally have "SigV4Auth_canonical_headers (SigV4Auth_headers_to_sign e request) =
      join [CHR 0x0A] (map ?line ?names)"
    by (simp only: H)
  moreover have "sorted ?names" by simp
  moreover have "distinct ?names" by simp
  ultimately show ?thesis
    using names by blast
qed

theorem SigV4Auth_canonical_headers_lines_witness:
  "SigV4Auth_canonical_headers
     (SigV4Auth_headers_to_sign example_env
        (example_request\<lparr>headers :=
           [(''X-Amz-Meta'', ''b ''), (''Content-Type'', '' text/plain''),
            (''x-amz-meta'', '' a'')]\<rparr>))
   = ''content-type:text/plain'' @ [CHR 0x0A] @ ''host:host.example.com'' @ [CHR 0x0A]
     @ ''x-amz-meta:a,b''"
proof -
  let ?r = "example_request\<lparr>headers :=
           [(''X-Amz-Meta'', ''b ''), (''Content-Type'', '' text/plain''),
            (''x-amz-meta'', '' a'')]\<rparr>"
  have ev: "SigV4Auth_canonical_headers (SigV4Auth_headers_to_sign example_env ?r)
      = ''content-type:text/plain'' @ [CHR 0x0A] @ ''host:host.example.com'' @ [CHR 0x0A]
        @ ''x-amz-meta:a,b''"
    by (simp add: eval_defs)
  show ?thesis
    using SigV4Auth_canonical_headers_lines [of example_env ?r] ev by simp
qed

text \<open>
  With the values \<^verbatim>\<open>' b'\<close> and \<^verbatim>\<open>'a'\<close> of one name the line reads \<^verbatim>\<open>b,a\<close>: neither
  the values sorted and joined, nor the stripped values sorted and joined.
\<close>

theorem SigV4Auth_canonical_headers_lines_counterexample:
  "SigV4Auth_canonical_headers
     (SigV4Auth_headers_to_sign example_env
        (example_request\<lparr>headers := [(''x-amz-meta'', '' b''), (''x-amz-meta'', ''a'')]\<rparr>))
     = ''host:host.example.com'' @ [CHR 0x0A] @ ''x-amz-meta:b,a''
   \<and> join '','' (sort ['' b'', ''a'']) = '' b,a''
   \<and> join '','' (sort (map strip ['' b'', ''a''])) = ''a,b''"
  by (simp add: eval_defs)

subsection \<open>HmacV1Auth: the canonical resource\<close>

lemma hd_unquote_v: "hd (HmacV1Auth_unquote_v a) = hd a"
  by (induction a rule: HmacV1Auth_unquote_v.induct) simp_all

text \<open>
  C7. When the query of the URL has a key of \<^verbatim>\<open>QSAOfInterest\<close>, the canonical resource
  is the path (or \<^verbatim>\<open>auth_path\<close>), a question mark, and the \<^verbatim>\<open>&\<close>-joined pairs of the
  query whose key is in \<^verbatim>\<open>QSAOfInterest\<close>, each with its value unquoted, in the order of
  their keys. No other pair of the query is in it.
\<close>

theorem HmacV1Auth_canonical_resource_query:
  assumes "filter (\<lambda>a. hd a \<in> set QSAOfInterest)
             (map (split1 (CHR ''='')) (split (CHR ''&'') (query sp))) \<noteq> []"
  shows "\<exists>qsa.
           HmacV1Auth_canonical_resource self sp =
             (case auth_path self of
                None \<Rightarrow> path sp
              | Some ap \<Rightarrow> if ap \<noteq> [] then ap else path sp)
             @ ''?'' @ join ''&'' (map (join ''='') qsa)
           \<and> mset qsa =
               mset (map HmacV1Auth_unquote_v
                      (filter (\<lambda>a. hd a \<in> set QSAOfInterest)
                         (map (split1 (CHR ''='')) (split (CHR ''&'') (query sp)))))
           \<and> sorted (map hd qsa)
           \<and> (\<forall>a\<in>set qsa. hd a \<in> set QSAOfInterest)"
proof -
  let ?sel = "filter (\<lambda>a. hd a \<in> set QSAOfInterest)
                (map (split1 (CHR ''='')) (split (CHR ''&'') (query sp)))"
  let ?qsa = "sort_key hd (map HmacV1Auth_unquote_v ?sel)"
  have q: "query sp \<noteq> []"
  proof
    assume "query sp = []"
    then have "?sel = []"
      by (simp add: split1_def QSAOfInterest_def)
    with assms show False by simp
  qed
  have "HmacV1Auth_canonical_resource self sp =
      (case auth_path self of
         None \<Rightarrow> path sp
       | Some ap \<Rightarrow> if ap \<noteq> [] then ap else path sp)
      @ ''?'' @ join ''&'' (map (join ''='') ?qsa)"
    using q assms by (simp add: HmacV1Auth_canonical_resource_def Let_def)
  moreover have "mset ?qsa = mset (map HmacV1Auth_unquote_v ?sel)"
    by simp
  moreover have "sorted (map hd ?qsa)"
    by (rule sorted_sort_key)
  moreover have "\<forall>a\<in>set ?qsa. hd a \<in> set QSAOfInterest"
    by (auto simp add: hd_unquote_v)
  ultimately show ?thesis by blast
qed

theorem HmacV1Auth_canonical_resource_query_witness:
  "query (example_urlsplit (url example_request)) = ''partNumber=1&foo=bar''
   \<and> filter (\<lambda>a. hd a \<in> set QSAOfInterest)
        (map (split1 (CHR ''=''))
           (split (CHR ''&'') (query (example_urlsplit (url example_request)))))
       = [[''partNumber'', ''1'']]
   \<and> HmacV1Auth_canonical_resource (example_hmacv1 (Some example_credentials))
        (example_urlsplit (url example_request)) = ''/b/k?partNumber=1''"
proof -
  let ?sp = "example_urlsplit (url example_request)"
  have q: "query ?sp = ''partNumber=1&foo=bar''"
    by (simp add: eval_defs)
  have sel: "filter (\<lambda>a. hd a \<in> set QSAOfInterest)
      (map (split1 (CHR ''='')) (split (CHR ''&'') (query ?sp))) = [[''partNumber'', ''1'']]"
    unfolding q by (simp add: split1_def QSAOfInterest_def)
  have ne: "filter (\<lambda>a. hd a \<in> set QSAOfInterest)
      (map (split1 (CHR ''='')) (split (CHR ''&'') (query ?sp))) \<noteq> []"
    unfolding sel by simp
  have p: "path ?sp = ''/b/k''"
    by (simp add: eval_defs)
  have u: "unquote ''1'' = ''1''"
    by (simp add: unquote_def)
  obtain qsa where r:
      "HmacV1Auth_canonical_resource (example_hmacv1 (Some example_credentials)) ?sp =
         ''/b/k'' @ ''?'' @ join ''&'' (map (join ''='') qsa)"
      "qsa = [[''partNumber'', ''1'']]"
    using HmacV1Auth_canonical_resource_query [OF ne, of "example_hmacv1 (Some example_credentials)"]
    unfolding sel p by (auto simp add: example_hmacv1_def u)
  with r(1) q sel show ?thesis by simp
qed

subsection \<open>SigV4Auth: the canonical query string\<close>

lemma canonical_query_string_params_loop_map:
  "canonical_query_string_params_loop ps keys l =
     l @ map (\<lambda>k. quote k ''-_.~'' @ ''='' @ quote (dict_getitem ps k) ''-_.~'') keys"
  by (induction keys arbitrary: l) (simp_all add: Let_def)

lemma split1_cases:
  "split1 c a = (if c \<in> set a
                 then [takeWhile (\<lambda>x. x \<noteq> c) a, tl (dropWhile (\<lambda>x. x \<noteq> c) a)]
                 else [a])"
  by (simp add: split1_def)

lemma canonical_query_string_url_loop_map:
  "canonical_query_string_url_loop (map (split1 c) pieces) quoted_qsa =
     quoted_qsa
     @ map (\<lambda>a. case split1 c a of
                   [k, v] \<Rightarrow> quote k ''-_.~'' @ ''='' @ quote (unquote v) ''-_.~''
                 | _ \<Rightarrow> quote a ''-_.~'' @ ''='')
           pieces"
  by (induction pieces arbitrary: quoted_qsa) (simp_all add: split1_def)

text \<open>
  C2 (as amended). With structured parameters the canonical query string is the
  \<^verbatim>\<open>&\<close>-joined list of the encoded \<^verbatim>\<open>key=value\<close> strings, one for each key of the
  parameters, sorted as whole strings. Without them it is the \<^verbatim>\<open>&\<close>-joined list of the
  pieces of the URL's query, each with its key encoded and its value unquoted and encoded,
  a piece without \<^verbatim>\<open>=\<close> written \<^verbatim>\<open>key=\<close>; nothing is said here on their order.
\<close>

theorem SigV4Auth_canonical_query_string_sorted:
  "(\<exists>l. SigV4Auth_canonical_query_string_params ps = join ''&'' l
        \<and> sorted l
        \<and> mset l =
            mset (map (\<lambda>k. quote k ''-_.~'' @ ''='' @ quote (dict_getitem ps k) ''-_.~'')
                      (dict_keys ps)))
   \<and> (query parts \<noteq> [] \<longrightarrow>
        (\<exists>l. SigV4Auth_canonical_query_string_url parts = join ''&'' l
           \<and> mset l =
               mset (map (\<lambda>a. case split1 (CHR ''='') a of
                                 [k, v] \<Rightarrow> quote k ''-_.~'' @ ''='' @ quote (unquote v) ''-_.~''
                               | _ \<Rightarrow> quote a ''-_.~'' @ ''='')
                         (split (CHR ''&'') (query parts)))))"
proof -
  let ?enc = "\<lambda>k. quote k ''-_.~'' @ ''='' @ quote (dict_getitem ps k) ''-_.~''"
  let ?l = "sort (map ?enc (dict_keys ps))"
  have "SigV4Auth_canonical_query_string_params ps = join ''&'' ?l"
    by (simp add: SigV4Auth_canonical_query_string_params_def Let_def
        canonical_query_string_params_loop_map)
  moreover have "sorted ?l" by simp
  moreover have "mset ?l = mset (map ?enc (dict_keys ps))" by simp
  ultimately have params_branch:
    "\<exists>l. SigV4Auth_canonical_query_string_params ps = join ''&'' l \<and> sorted l
         \<and> mset l = mset (map ?enc (dict_keys ps))"
    by blast
  let ?piece = "\<lambda>a. case split1 (CHR ''='') a of
                      [k, v] \<Rightarrow> quote k ''-_.~'' @ ''='' @ quote (unquote v) ''-_.~''
                    | _ \<Rightarrow> quote a ''-_.~'' @ ''=''"
  let ?pieces = "split (CHR ''&'') (query parts)"
  let ?m = "sort_key hd (map ?piece ?pieces)"
  have ne: "?pieces \<noteq> []"
    by (cases "query parts") (auto split: list.splits)
  have "SigV4Auth_canonical_query_string_url parts = join ''&'' ?m" if "query parts \<noteq> []"
    using that ne
    by (simp add: SigV4Auth_canonical_query_string_url_def Let_def
        canonical_query_string_url_loop_map)
  moreover have "mset ?m = mset (map ?piece ?pieces)" by simp
  ultimately have url_branch:
    "query parts \<noteq> [] \<longrightarrow>
       (\<exists>l. SigV4Auth_canonical_query_string_url parts = join ''&'' l
          \<and> mset l = mset (map ?piece ?pieces))"
    by blast
  show ?thesis
    using params_branch url_branch by blast
qed

theorem SigV4Auth_canonical_query_string_sorted_witness:
  "query \<lparr>scheme = ''https'', netloc = ''host'', path = ''/'', query = ''b=x%20y&a&c=1'',
          fragment = []\<rparr> = ''b=x%20y&a&c=1''
   \<and> SigV4Auth_canonical_query_string_params [(''b'', ''x y''), (''a'', ''1'')] = ''a=1&b=x%20y''
   \<and> SigV4Auth_canonical_query_string_url
        \<lparr>scheme = ''https'', netloc = ''host'', path = ''/'', query = ''b=x%20y&a&c=1'',
         fragment = []\<rparr> = ''a=&b=x%20y&c=1''"
proof -
  have ev: "SigV4Auth_canonical_query_string_params [(''b'', ''x y''), (''a'', ''1'')]
        = ''a=1&b=x%20y''
      \<and> SigV4Auth_canonical_query_string_url
        \<lparr>scheme = ''https'', netloc = ''host'', path = ''/'', query = ''b=x%20y&a&c=1'',
         fragment = []\<rparr> = ''a=&b=x%20y&c=1''"
    by (simp add: eval_defs)
  show ?thesis
    using SigV4Auth_canonical_query_string_sorted [of "[(''b'', ''x y''), (''a'', ''1'')]"
        "\<lparr>scheme = ''https'', netloc = ''host'', path = ''/'', query = ''b=x%20y&a&c=1'',
          fragment = []\<rparr>"] ev
    by simp
qed

theorem SigV4Auth_canonical_query_string_counterexample:
  "SigV4Auth_canonical_query_string_params [(''a'', ''1''), (''a1'', ''2'')] = ''a1=2&a=1''
   \<and> query_string_sorted_by_key [(''a'', ''1''), (''a1'', ''2'')] = ''a=1&a1=2''
   \<and> SigV4Auth_canonical_query_string_url
        \<lparr>scheme = ''https'', netloc = ''host'', path = ''/'', query = ''ab=1&aa=2'',
         fragment = []\<rparr> = ''ab=1&aa=2''
   \<and> query_string_sorted_by_key [(''ab'', ''1''), (''aa'', ''2'')] = ''aa=2&ab=1''"
  by (simp add: eval_defs query_string_sorted_by_key_def)

subsection \<open>Whitespace around header values\<close>

lemma headers_iter_stripped:
  "headers_iter (map (\<lambda>(k, v). (k, strip v)) h) = headers_iter h"
  by (induction h) (auto simp add: headers_iter_def)

lemma headers_contains_stripped:
  "headers_contains (map (\<lambda>(k, v). (k, strip v)) h) m \<longleftrightarrow> headers_contains h m"
  by (force simp add: headers_contains_def image_iff)

lemma headers_get_all_stripped:
  "headers_get_all (map (\<lambda>(k, v). (k, strip v)) h) m = map strip (headers_get_all h m)"
  by (induction h) (auto simp add: headers_get_all_def)

lemma stripped_same:
  assumes "map (\<lambda>(k, v). (k, strip v)) h1 = map (\<lambda>(k, v). (k, strip v)) h2"
  shows "headers_iter h1 = headers_iter h2"
    and "headers_contains h1 m \<longleftrightarrow> headers_contains h2 m"
    and "map strip (headers_get_all h1 m) = map strip (headers_get_all h2 m)"
proof -
  show "headers_iter h1 = headers_iter h2"
    by (metis assms headers_iter_stripped)
  show "headers_contains h1 m \<longleftrightarrow> headers_contains h2 m"
    by (metis assms headers_contains_stripped)
  show "map strip (headers_get_all h1 m) = map strip (headers_get_all h2 m)"
    by (metis assms headers_get_all_stripped)
qed

lemma canonical_custom_headers_loop_stripped:
  assumes "map (\<lambda>(k, v). (k, strip v)) h1 = map (\<lambda>(k, v). (k, strip v)) h2"
  shows "canonical_custom_headers_loop h1 keys custom_headers =
         canonical_custom_headers_loop h2 keys custom_headers"
proof (induction keys arbitrary: custom_headers)
  case Nil
  then show ?case by simp
next
  case (Cons key keys)
  have "(headers_getitem h1 key \<noteq> None) = (headers_getitem h2 key \<noteq> None)"
    using stripped_same(2) [OF assms, of key] by (simp only: headers_getitem_contains)
  moreover have "map strip (headers_get_all h1 key) = map strip (headers_get_all h2 key)"
    by (rule stripped_same(3) [OF assms])
  ultimately show ?case
    using Cons.IH by (simp add: Let_def)
qed

lemma canonical_custom_headers_stripped:
  assumes "map (\<lambda>(k, v). (k, strip v)) h1 = map (\<lambda>(k, v). (k, strip v)) h2"
  shows "HmacV1Auth_canonical_custom_headers h1 = HmacV1Auth_canonical_custom_headers h2"
  using canonical_custom_headers_loop_stripped [OF assms] stripped_same(1) [OF assms]
  by (simp add: HmacV1Auth_canonical_custom_headers_def)

lemma get_all_single:
  assumes "distinct (map (\<lambda>(k, v). lower k) h)"
  shows "length (headers_get_all h m) \<le> 1"
  using assms
proof (induction h)
  case Nil
  then show ?case by (simp add: headers_get_all_def)
next
  case (Cons x h)
  obtain k v where x: "x = (k, v)" by (cases x)
  show ?case
  proof (cases "lower k = lower m")
    case True
    then have "lower m \<notin> (\<lambda>(k, v). lower k) ` set h"
      using Cons.prems x by auto
    then have "headers_get_all h m = []"
      by (simp add: headers_get_all_empty_iff headers_contains_def)
    then show ?thesis
      using x True by (simp add: headers_get_all_def)
  next
    case False
    then show ?thesis
      using Cons x by (simp add: headers_get_all_def)
  qed
qed

lemma sort_short: "length xs \<le> 1 \<Longrightarrow> sort xs = xs"
  by (cases xs) (auto simp add: length_Suc_conv)

lemma canonical_headers_stripped:
  assumes "map (\<lambda>(k, v). (k, strip v)) h1 = map (\<lambda>(k, v). (k, strip v)) h2"
    and "distinct (map (\<lambda>(k, v). lower k) h1)"
  shows "SigV4Auth_canonical_headers h1 = SigV4Auth_canonical_headers h2"
proof -
  have names: "map (\<lambda>(k, v). lower k) h = map lower (headers_iter h)" for h :: HTTPHeaders
    by (induction h) (auto simp add: headers_iter_def)
  have d2: "distinct (map (\<lambda>(k, v). lower k) h2)"
    using assms(2) stripped_same(1) [OF assms(1)] by (simp only: names)
  have "map strip (sort (headers_get_all h1 key)) = map strip (sort (headers_get_all h2 key))"
    for key
    using sort_short [OF get_all_single [OF assms(2), of key]]
      sort_short [OF get_all_single [OF d2, of key]]
      stripped_same(3) [OF assms(1), of key]
    by simp
  then show ?thesis
    using stripped_same(1) [OF assms(1)]
    by (simp add: SigV4Auth_canonical_headers_def canonical_headers_loop_map)
qed

text \<open>
  C10 (as amended). Both computations strip every value. \<^verbatim>\<open>canonical_custom_headers\<close>
  strips the values of a name and joins them in the order of the headers, without sorting
  them, so two header lists that differ only in the whitespace around their values have
  the same custom headers. \<^verbatim>\<open>canonical_headers\<close> sorts the values of a name as they are
  and strips them afterwards; two such lists have the same canonical headers when no
  name, compared without case, occurs twice.
\<close>

theorem canonical_headers_strip_values:
  assumes "map (\<lambda>(k, v). (k, strip v)) h1 = map (\<lambda>(k, v). (k, strip v)) h2"
  shows "HmacV1Auth_canonical_custom_headers h1 = HmacV1Auth_canonical_custom_headers h2
         \<and> (distinct (map (\<lambda>(k, v). lower k) h1) \<longrightarrow>
              SigV4Auth_canonical_headers h1 = SigV4Auth_canonical_headers h2)"
  using canonical_custom_headers_stripped [OF assms] canonical_headers_stripped [OF assms]
  by blast

theorem canonical_headers_strip_values_witness:
  "map (\<lambda>(k, v). (k, strip v)) [(''X-Amz-Meta'', '' b ''), (''x-amz-acl'', ''private '')]
     = map (\<lambda>(k, v). (k, strip v)) [(''X-Amz-Meta'', ''b''), (''x-amz-acl'', '' private'')]
   \<and> distinct (map (\<lambda>(k, v). lower k) [(''X-Amz-Meta'', '' b ''), (''x-amz-acl'', ''private '')])
   \<and> HmacV1Auth_canonical_custom_headers [(''X-Amz-Meta'', '' b ''), (''x-amz-acl'', ''private '')]
       = HmacV1Auth_canonical_custom_headers [(''X-Amz-Meta'', ''b''), (''x-amz-acl'', '' private'')]
   \<and> SigV4Auth_canonical_headers [(''X-Amz-Meta'', '' b ''), (''x-amz-acl'', ''private '')]
       = SigV4Auth_canonical_headers [(''X-Amz-Meta'', ''b''), (''x-amz-acl'', '' private'')]
   \<and> HmacV1Auth_canonical_custom_headers [(''X-Amz-Meta'', '' b ''), (''x-amz-acl'', ''private '')]
       = ''x-amz-acl:private'' @ [CHR 0x0A] @ ''x-amz-meta:b''"
proof -
  have s: "map (\<lambda>(k, v). (k, strip v)) [(''X-Amz-Meta'', '' b ''), (''x-amz-acl'', ''private '')]
     = map (\<lambda>(k, v). (k, strip v)) [(''X-Amz-Meta'', ''b''), (''x-amz-acl'', '' private'')]"
    by (simp add: strip_def is_space_def)
  have d: "distinct (map (\<lambda>(k, v). lower k)
      [(''X-Amz-Meta'', '' b ''), (''x-amz-acl'', ''private '')])"
    by (simp add: lower_def lower_chr_def)
  have ev: "HmacV1Auth_canonical_custom_headers
      [(''X-Amz-Meta'', '' b ''), (''x-amz-acl'', ''private '')]
       = ''x-amz-acl:private'' @ [CHR 0x0A] @ ''x-amz-meta:b''"
    by (simp add: eval_defs)
  show ?thesis
    using canonical_headers_strip_values [OF s] s d ev by blast
qed

theorem canonical_headers_strip_values_counterexample:
  "map (\<lambda>(k, v). (k, strip v)) [(''x-amz-meta'', '' b''), (''x-amz-meta'', ''a'')]
     = map (\<lambda>(k, v). (k, strip v)) [(''x-amz-meta'', ''b''), (''x-amz-meta'', ''a'')]
   \<and> SigV4Auth_canonical_headers [(''x-amz-meta'', '' b''), (''x-amz-meta'', ''a'')]
       = ''x-amz-meta:b,a''
   \<and> SigV4Auth_canonical_headers [(''x-amz-meta'', ''b''), (''x-amz-meta'', ''a'')]
       = ''x-amz-meta:a,b''"
  by (simp add: eval_defs)

end
